theory Spec2Isabelle
  imports Complex_Main
begin

section \<open>The slider's data\<close>

text \<open>
  Embedding of \<^verbatim>\<open>packages/core/src/useSlider/useSlider.ts\<close>.

  A JavaScript number is modelled as a real: the arithmetic of the slider is exact
  in the model, and the values \<^verbatim>\<open>NaN\<close> and \<^verbatim>\<open>Infinity\<close> are not numbers of the model,
  with two exceptions: the one \<^verbatim>\<open>Infinity\<close> the source writes, the initial distance of the
  track handler's search, is the distance \<open>None\<close>; and a numeric prop, which the source
  reads with \<^verbatim>\<open>||\<close> and so replaces when it is \<^verbatim>\<open>NaN\<close>, may be \<open>NaN\<close>. A value that may be \<^verbatim>\<open>undefined\<close> or \<^verbatim>\<open>null\<close> is an
  \<open>option\<close>, \<open>None\<close> standing for both: the source only tests such values with
  \<^verbatim>\<open>??\<close>, \<^verbatim>\<open>||\<close> and \<^verbatim>\<open>isNullOrUndefined\<close>, which do not tell them apart.

  Where the source divides by the extent of the track, a zero extent gives \<^verbatim>\<open>NaN\<close> or an
  infinity in JavaScript: the quotient of the model is meant for a track of non-zero
  extent only. The statements below that depend on its value assume a positive extent;
  the others hold for whatever target value the mapping gives.
\<close>

datatype Orientation = horizontal | vertical

datatype Direction = ltr | rtl

text \<open>A configured number: \<^verbatim>\<open>NaN\<close> or a finite number.\<close>

datatype NumberProp = NaN | Num real

text \<open>The props of \<^verbatim>\<open>SliderProps\<close> that the engine reads, each after \<^verbatim>\<open>toValue\<close>.\<close>

record SliderProps =
  prop_orientation :: "Orientation option"
  prop_dir :: "Direction option"
  prop_min :: "NumberProp option"
  prop_max :: "NumberProp option"
  prop_step :: "NumberProp option"
  prop_disabled :: "bool option"
  prop_readonly :: "bool option"

record Coordinate =
  coord_x :: real
  coord_y :: real

text \<open>What \<^verbatim>\<open>getBoundingClientRect\<close> reports of the track element.\<close>

record DOMRect =
  rect_left :: real
  rect_top :: real
  rect_width :: real
  rect_height :: real

text \<open>
  A registered thumb. \<open>thumb_ref\<close> is the identity of the object: the registry is
  searched with \<^verbatim>\<open>indexOf\<close>, which compares references.
\<close>

record ThumbRegistration =
  thumb_ref :: nat
  thumb_id :: string

record ValueRange =
  range_min :: real
  range_max :: real

text \<open>The object \<^verbatim>\<open>{ min, max, absoluteMin, absoluteMax }\<close> of \<^verbatim>\<open>getThumbRange\<close>.\<close>

record ThumbRange =
  thumb_min :: real
  thumb_max :: real
  absoluteMin :: real
  absoluteMax :: real

text \<open>
  The field value, an \<^verbatim>\<open>Arrayable<number>\<close> that may be unset. An array element is
  \<open>None\<close> where the array has a hole or holds \<^verbatim>\<open>undefined\<close>.
\<close>

datatype FieldValue = Unset | Scalar real | Arr "real option list"

text \<open>
  The state that \<^verbatim>\<open>useSlider\<close> closes over: the props, the locale's \<^verbatim>\<open>direction\<close>, the track
  element (its rectangle, \<open>None\<close> while \<^verbatim>\<open>trackRef.value\<close> is unset), the registry
  \<^verbatim>\<open>thumbs\<close>, and the field's value, touched flag and number of validity updates so far.

  Modelled from the spec: \<^verbatim>\<open>useLocale\<close> is not under src/. The locale service supplies the
  ambient text direction, the default when no direction is configured.
\<close>

record Slider =
  props :: SliderProps
  direction :: Direction
  trackRef :: "DOMRect option"
  thumbs :: "ThumbRegistration list"
  fieldValue :: FieldValue
  touched :: bool
  validityUpdates :: nat

section \<open>Collaborators\<close>

text \<open>
  Modelled from the spec: \<^verbatim>\<open>useFormField\<close> and \<^verbatim>\<open>useInputValidity\<close> are not under src/.
  The field service provides the value's get and set, the touched flag's set and a
  revalidation trigger.
\<close>

definition setValue :: "Slider \<Rightarrow> FieldValue \<Rightarrow> Slider" where
  "setValue s v = s\<lparr>fieldValue := v\<rparr>"

definition setTouched :: "Slider \<Rightarrow> bool \<Rightarrow> Slider" where
  "setTouched s b = s\<lparr>touched := b\<rparr>"

definition updateValidity :: "Slider \<Rightarrow> Slider" where
  "updateValidity s = s\<lparr>validityUpdates := Suc (validityUpdates s)\<rparr>"

text \<open>
  Modelled from the spec: \<^verbatim>\<open>normalizeArrayable\<close> and \<^verbatim>\<open>isNullOrUndefined\<close> (utils/common)
  are not under src/. The value is a single number or a sequence of numbers;
  normalising it gives the sequence itself, or the one-element sequence of the single
  value.
\<close>

definition isNullOrUndefined :: "'a option \<Rightarrow> bool" where
  "isNullOrUndefined v = (v = None)"

fun normalizeArrayable :: "FieldValue \<Rightarrow> real option list" where
  "normalizeArrayable (Arr xs) = xs"
| "normalizeArrayable (Scalar v) = [Some v]"
| "normalizeArrayable Unset = [None]"

text \<open>
  Modelled from the spec: \<^verbatim>\<open>removeFirst\<close> (utils/common) is not under src/. Deregistration
  removes the first registry entry that matches, and does nothing when there is none.
\<close>

fun removeFirst :: "'a list \<Rightarrow> ('a \<Rightarrow> bool) \<Rightarrow> 'a list" where
  "removeFirst [] p = []"
| "removeFirst (x # xs) p = (if p x then xs else x # removeFirst xs p)"

text \<open>
  Modelled from the spec: \<^verbatim>\<open>toNearestMultipleOf\<close> (utils/math) is not under src/. The
  quantizer snaps a value to the nearest multiple of the step, ties resolved by
  rounding half away from zero.
\<close>

definition roundHalfAway :: "real \<Rightarrow> int" where
  "roundHalfAway r = (if r < 0 then - \<lfloor>- r + 1 / 2\<rfloor> else \<lfloor>r + 1 / 2\<rfloor>)"

definition toNearestMultipleOf :: "real \<Rightarrow> real \<Rightarrow> real" where
  "toNearestMultipleOf v multiple = of_int (roundHalfAway (v / multiple)) * multiple"

section \<open>JavaScript operators\<close>

text \<open>
  \<^verbatim>\<open>a || d\<close> on a configured number that may be undefined: \<^verbatim>\<open>undefined\<close>, \<^verbatim>\<open>NaN\<close> and \<^verbatim>\<open>0\<close>
  are falsy.
\<close>

definition orElse :: "NumberProp option \<Rightarrow> real \<Rightarrow> real" where
  "orElse a d =
     (case a of
        None \<Rightarrow> d
      | Some NaN \<Rightarrow> d
      | Some (Num v) \<Rightarrow> if v = 0 then d else v)"

text \<open>\<^verbatim>\<open>a ?? d\<close>.\<close>

definition nullish :: "'a option \<Rightarrow> 'a \<Rightarrow> 'a" where
  "nullish a d = (case a of None \<Rightarrow> d | Some v \<Rightarrow> v)"

text \<open>\<^verbatim>\<open>xs.indexOf(a)\<close>: the first position of \<open>a\<close>, or \<open>-1\<close>.\<close>

fun indexOf :: "'a list \<Rightarrow> 'a \<Rightarrow> int" where
  "indexOf [] a = - 1"
| "indexOf (b # bs) a =
     (if b = a then 0 else (let r = indexOf bs a in if r < 0 then - 1 else r + 1))"

text \<open>
  \<^verbatim>\<open>xs[idx] = v\<close> on an array: inside the array the element is replaced; beyond its
  end the array grows, the positions in between being holes.
\<close>

definition arrayStore :: "'a option list \<Rightarrow> nat \<Rightarrow> 'a \<Rightarrow> 'a option list" where
  "arrayStore xs idx v =
     (if idx < length xs then xs[idx := Some v]
      else xs @ replicate (idx - length xs) None @ [Some v])"

text \<open>\<^verbatim>\<open>diff < candidate.diff\<close>, where \<open>None\<close> is the distance \<^verbatim>\<open>Infinity\<close>.\<close>

fun lessDiff :: "real \<Rightarrow> real option \<Rightarrow> bool" where
  "lessDiff d None = True"
| "lessDiff d (Some c) = (d < c)"

section \<open>The controller\<close>

definition isDisabled :: "Slider \<Rightarrow> bool" where
  "isDisabled s = nullish (prop_disabled (props s)) False"

definition isReadonly :: "Slider \<Rightarrow> bool" where
  "isReadonly s = nullish (prop_readonly (props s)) False"

definition isMutable :: "Slider \<Rightarrow> bool" where
  "isMutable s = (\<not> isDisabled s \<and> \<not> isReadonly s)"

text \<open>
  \<^verbatim>\<open>getThumbValue(idx)\<close>: the element of an array value (\<^verbatim>\<open>undefined\<close> outside the
  array), the whole of any other value at index 0, \<^verbatim>\<open>undefined\<close> elsewhere.
\<close>

definition getThumbValue :: "Slider \<Rightarrow> int \<Rightarrow> real option" where
  "getThumbValue s idx =
     (case fieldValue s of
        Arr xs \<Rightarrow> (if 0 \<le> idx \<and> idx < int (length xs) then xs ! nat idx else None)
      | Scalar v \<Rightarrow> (if idx = 0 then Some v else None)
      | Unset \<Rightarrow> None)"

text \<open>
  \<^verbatim>\<open>setThumbValue(idx, value)\<close>, for a position \<open>idx\<close> of the registry, as the track handler
  passes it. (The \<open>-1\<close> that \<^verbatim>\<open>getThumbIndex\<close> gives for a thumb no longer registered is
  not a position, and is not modelled.)
\<close>

definition setThumbValue :: "Slider \<Rightarrow> nat \<Rightarrow> real \<Rightarrow> Slider" where
  "setThumbValue s idx v =
     (if \<not> isMutable s then s
      else if length (thumbs s) \<le> 1 then updateValidity (setValue s (Scalar v))
      else
        let nextValue = filter (\<lambda>v. \<not> isNullOrUndefined v) (normalizeArrayable (fieldValue s));
            nextValue = arrayStore nextValue idx v
        in updateValidity (setValue s (Arr nextValue)))"

definition getSliderRange :: "Slider \<Rightarrow> ValueRange" where
  "getSliderRange s =
     \<lparr>range_min = orElse (prop_min (props s)) 0, range_max = orElse (prop_max (props s)) 100\<rparr>"

definition getSliderStep :: "Slider \<Rightarrow> real" where
  "getSliderStep s = orElse (prop_step (props s)) 1"

definition getOrientation :: "Slider \<Rightarrow> Orientation" where
  "getOrientation s = nullish (prop_orientation (props s)) horizontal"

text \<open>\<^verbatim>\<open>getInlineDirection\<close>: the configured direction, or else the locale's.\<close>

definition getInlineDirection :: "Slider \<Rightarrow> Direction" where
  "getInlineDirection s = (case prop_dir (props s) of None \<Rightarrow> direction s | Some d \<Rightarrow> d)"

definition getValueForPagePosition :: "Slider \<Rightarrow> Coordinate \<Rightarrow> real" where
  "getValueForPagePosition s pos =
     (case trackRef s of
        None \<Rightarrow> 0
      | Some rect \<Rightarrow>
          let orientation = nullish (prop_orientation (props s)) horizontal;
              percent = (if orientation = horizontal
                         then (coord_x pos - rect_left rect) / rect_width rect
                         else (coord_y pos - rect_top rect) / rect_height rect);
              percent = (if prop_dir (props s) = Some rtl \<or> orientation = vertical
                         then 1 - percent else percent);
              mn = orElse (prop_min (props s)) 0;
              mx = orElse (prop_max (props s)) 100;
              v = percent * (mx - mn) + mn
          in toNearestMultipleOf v (orElse (prop_step (props s)) 1))"

definition getThumbRange :: "Slider \<Rightarrow> ThumbRegistration \<Rightarrow> ThumbRange" where
  "getThumbRange s thumbCtx =
     (let r = getSliderRange s;
          idx = indexOf (thumbs s) thumbCtx;
          nextThumb = getThumbValue s (idx + 1);
          prevThumb = getThumbValue s (idx - 1)
      in \<lparr>thumb_min = nullish prevThumb (range_min r),
          thumb_max = nullish nextThumb (range_max r),
          absoluteMin = range_min r,
          absoluteMax = range_max r\<rparr>)"

text \<open>
  \<^verbatim>\<open>useSliderThumbRegistration(ctx)\<close> appends the thumb to the registry, and its
  \<^verbatim>\<open>onBeforeUnmount\<close> hook removes the first entry with the thumb's id. Neither touches the
  field value.
\<close>

definition useSliderThumbRegistration :: "Slider \<Rightarrow> ThumbRegistration \<Rightarrow> Slider" where
  "useSliderThumbRegistration s ctx = s\<lparr>thumbs := thumbs s @ [ctx]\<rparr>"

definition onBeforeUnmount :: "Slider \<Rightarrow> ThumbRegistration \<Rightarrow> Slider" where
  "onBeforeUnmount s ctx =
     s\<lparr>thumbs := removeFirst (thumbs s) (\<lambda>reg. thumb_id reg = thumb_id ctx)\<rparr>"

text \<open>The accumulator \<^verbatim>\<open>{ thumb, idx, diff }\<close> of the track handler's \<^verbatim>\<open>reduce\<close>.\<close>

record Candidate =
  cand_thumb :: "ThumbRegistration option"
  cand_idx :: nat
  cand_diff :: "real option"

text \<open>The callback of the \<^verbatim>\<open>reduce\<close>, on the element \<open>cur\<close> (\<^verbatim>\<open>curr\<close>) at position \<open>idx\<close>.\<close>

definition closer :: "Slider \<Rightarrow> real \<Rightarrow> Candidate \<Rightarrow> ThumbRegistration \<times> nat \<Rightarrow> Candidate" where
  "closer s targetValue candidate ci =
     (case ci of (cur, idx) \<Rightarrow>
        let r = getThumbRange s cur in
        if targetValue < thumb_min r \<or> targetValue > thumb_max r then candidate
        else
          (case getThumbValue s (int idx) of
             None \<Rightarrow> candidate
           | Some currentThumbValue \<Rightarrow>
               let diff = \<bar>currentThumbValue - targetValue\<bar> in
               if lessDiff diff (cand_diff candidate)
               then \<lparr>cand_thumb = Some cur, cand_idx = idx, cand_diff = Some diff\<rparr>
               else candidate))"

definition closest :: "Slider \<Rightarrow> real \<Rightarrow> Candidate" where
  "closest s targetValue =
     foldl (closer s targetValue)
       \<lparr>cand_thumb = (case thumbs s of [] \<Rightarrow> None | t # _ \<Rightarrow> Some t), cand_idx = 0, cand_diff = None\<rparr>
       (zip (thumbs s) [0..<length (thumbs s)])"

text \<open>\<^verbatim>\<open>trackProps.onMousedown(e)\<close>, the event given by its client coordinates.\<close>

definition onMousedown :: "Slider \<Rightarrow> Coordinate \<Rightarrow> Slider" where
  "onMousedown s e =
     (if trackRef s = None \<or> \<not> isMutable s then s
      else
        let targetValue = getValueForPagePosition s e;
            c = closest s targetValue
        in setTouched (setThumbValue s (cand_idx c) targetValue) True)"

section \<open>Notions used in the statements and proofs\<close>

text \<open>
  The range that \<^verbatim>\<open>getThumbRange\<close> gives the thumb registered at position \<open>i\<close> contains
  the value \<open>t\<close>: the negation of the handler's test
  \<^verbatim>\<open>targetValue < min || targetValue > max\<close>.
\<close>

definition rangeContains :: "Slider \<Rightarrow> nat \<Rightarrow> real \<Rightarrow> bool" where
  "rangeContains s i t =
     (thumb_min (getThumbRange s (thumbs s ! i)) \<le> t \<and>
      t \<le> thumb_max (getThumbRange s (thumbs s ! i)))"

text \<open>
  The local \<^verbatim>\<open>value\<close> of \<^verbatim>\<open>getValueForPagePosition\<close> on a track of rectangle \<open>rect\<close>: the
  value of the position before it is quantized.
\<close>

definition valueBeforeQuantizing :: "Slider \<Rightarrow> DOMRect \<Rightarrow> Coordinate \<Rightarrow> real" where
  "valueBeforeQuantizing s rect pos =
     (let orientation = nullish (prop_orientation (props s)) horizontal;
          percent = (if orientation = horizontal
                     then (coord_x pos - rect_left rect) / rect_width rect
                     else (coord_y pos - rect_top rect) / rect_height rect);
          percent = (if prop_dir (props s) = Some rtl \<or> orientation = vertical
                     then 1 - percent else percent);
          mn = orElse (prop_min (props s)) 0;
          mx = orElse (prop_max (props s)) 100
      in percent * (mx - mn) + mn)"

text \<open>
  The accumulator of the \<^verbatim>\<open>reduce\<close> once the first \<open>n\<close> thumbs of the registry have been
  visited; after all of them it is \<open>closest\<close>.
\<close>

definition closestUpto :: "Slider \<Rightarrow> real \<Rightarrow> nat \<Rightarrow> Candidate" where
  "closestUpto s targetValue n =
     foldl (closer s targetValue)
       \<lparr>cand_thumb = (case thumbs s of [] \<Rightarrow> None | t # _ \<Rightarrow> Some t), cand_idx = 0, cand_diff = None\<rparr>
       (zip (take n (thumbs s)) [0..<n])"

text \<open>
  Among the first \<open>n\<close> thumbs, \<open>k\<close> (of value \<open>vk\<close>) is one whose range contains \<open>t\<close>
  and whose value is set, no such thumb is nearer to \<open>t\<close>, and none as near has a
  lower position.
\<close>

definition nearestAmong :: "Slider \<Rightarrow> real \<Rightarrow> nat \<Rightarrow> nat \<Rightarrow> real \<Rightarrow> bool" where
  "nearestAmong s t n k vk =
     (k < n \<and> rangeContains s k t \<and> getThumbValue s (int k) = Some vk \<and>
      (\<forall>j<n. \<forall>v. rangeContains s j t \<and> getThumbValue s (int j) = Some v \<longrightarrow>
         \<bar>vk - t\<bar> \<le> \<bar>v - t\<bar> \<and> (\<bar>v - t\<bar> = \<bar>vk - t\<bar> \<longrightarrow> k \<le> j)))"

text \<open>
  The range of the thumb at position \<open>i\<close> as the specification words it: the value of the
  preceding thumb, or the slider's minimum when there is none or its value is unset; the
  value of the following thumb, or the slider's maximum when there is none or its value
  is unset.
\<close>

definition specThumbRange :: "Slider \<Rightarrow> nat \<Rightarrow> ValueRange" where
  "specThumbRange s i =
     \<lparr>range_min =
        (if 0 < i then nullish (getThumbValue s (int i - 1)) (range_min (getSliderRange s))
         else range_min (getSliderRange s)),
      range_max =
        (if i + 1 < length (thumbs s)
         then nullish (getThumbValue s (int i + 1)) (range_max (getSliderRange s))
         else range_max (getSliderRange s))\<rparr>"

section \<open>Example sliders\<close>

text \<open>
  The slider of the end-to-end scenario: bounds 0 to 10, step 1, two thumbs at 2 and 8,
  on a horizontal track 100 wide, and a click at three tenths of its width.
\<close>

definition exampleProps :: SliderProps where
  "exampleProps =
     \<lparr>prop_orientation = None, prop_dir = None, prop_min = Some (Num 0),
      prop_max = Some (Num 10), prop_step = Some (Num 1), prop_disabled = None,
      prop_readonly = None\<rparr>"

definition exampleThumbs :: "ThumbRegistration list" where
  "exampleThumbs = [\<lparr>thumb_ref = 0, thumb_id = ''a''\<rparr>, \<lparr>thumb_ref = 1, thumb_id = ''b''\<rparr>]"

definition exampleSlider :: Slider where
  "exampleSlider =
     \<lparr>props = exampleProps, direction = ltr,
      trackRef = Some \<lparr>rect_left = 0, rect_top = 0, rect_width = 100, rect_height = 10\<rparr>,
      thumbs = exampleThumbs,
      fieldValue = Arr [Some 2, Some 8], touched = False, validityUpdates = 0\<rparr>"

definition exampleClick :: Coordinate where
  "exampleClick = \<lparr>coord_x = 30, coord_y = 5\<rparr>"

definition disabledSlider :: Slider where
  "disabledSlider = exampleSlider\<lparr>props := exampleProps\<lparr>prop_disabled := Some True\<rparr>\<rparr>"

definition readonlySlider :: Slider where
  "readonlySlider = exampleSlider\<lparr>props := exampleProps\<lparr>prop_readonly := Some True\<rparr>\<rparr>"

text \<open>A slider with one thumb whose value was given as a one-element array.\<close>

definition singleThumbSlider :: Slider where
  "singleThumbSlider =
     exampleSlider\<lparr>thumbs := [\<lparr>thumb_ref = 0, thumb_id = ''a''\<rparr>], fieldValue := Arr [Some 5]\<rparr>"

text \<open>The two-thumb slider before any value has been given.\<close>

definition unsetSlider :: Slider where
  "unsetSlider = exampleSlider\<lparr>fieldValue := Unset\<rparr>"

text \<open>The example slider with a step of \<open>-2\<close>, with a step of 0, and a click off the grid of steps.\<close>

definition negativeStepSlider :: Slider where
  "negativeStepSlider = exampleSlider\<lparr>props := exampleProps\<lparr>prop_step := Some (Num (- 2))\<rparr>\<rparr>"

definition zeroStepSlider :: Slider where
  "zeroStepSlider = exampleSlider\<lparr>props := exampleProps\<lparr>prop_step := Some (Num 0)\<rparr>\<rparr>"

definition offGridClick :: Coordinate where
  "offGridClick = \<lparr>coord_x = 34, coord_y = 5\<rparr>"

text \<open>The example slider after its second thumb has been unmounted.\<close>

definition departedSlider :: Slider where
  "departedSlider = onBeforeUnmount exampleSlider \<lparr>thumb_ref = 1, thumb_id = ''b''\<rparr>"

text \<open>The example slider with a second value beyond its maximum of 10.\<close>

definition outOfBoundsSlider :: Slider where
  "outOfBoundsSlider = exampleSlider\<lparr>fieldValue := Arr [Some 2, Some 12]\<rparr>"

text \<open>A slider with three thumbs before any value has been given.\<close>

definition threeThumbSlider :: Slider where
  "threeThumbSlider = useSliderThumbRegistration unsetSlider \<lparr>thumb_ref = 2, thumb_id = ''c''\<rparr>"

text \<open>
  The example slider in right-to-left direction, vertical in right-to-left direction, and
  in left-to-right direction with a minimum of 150 under the default maximum of 100; two
  positions on the track.
\<close>

definition rtlSlider :: Slider where
  "rtlSlider = exampleSlider\<lparr>props := exampleProps\<lparr>prop_dir := Some rtl\<rparr>\<rparr>"

definition verticalRtlSlider :: Slider where
  "verticalRtlSlider =
     exampleSlider\<lparr>props := exampleProps\<lparr>prop_orientation := Some vertical, prop_dir := Some rtl\<rparr>\<rparr>"

definition invertedBoundsSlider :: Slider where
  "invertedBoundsSlider =
     exampleSlider\<lparr>props := exampleProps\<lparr>prop_dir := Some ltr, prop_min := Some (Num 150),
       prop_max := None\<rparr>\<rparr>"

definition lowClick :: Coordinate where
  "lowClick = \<lparr>coord_x = 30, coord_y = 3\<rparr>"

definition highClick :: Coordinate where
  "highClick = \<lparr>coord_x = 70, coord_y = 7\<rparr>"

text \<open>
  The example slider with its two values out of order, and a click between them; the
  example slider with a third thumb that has no value yet, and a click in the middle.
\<close>

definition crossedSlider :: Slider where
  "crossedSlider = exampleSlider\<lparr>fieldValue := Arr [Some 5, Some 3]\<rparr>"

definition crossedClick :: Coordinate where
  "crossedClick = \<lparr>coord_x = 40, coord_y = 5\<rparr>"

definition partlySetSlider :: Slider where
  "partlySetSlider =
     (useSliderThumbRegistration exampleSlider \<lparr>thumb_ref = 2, thumb_id = ''c''\<rparr>)
       \<lparr>fieldValue := Arr [Some 8, Some 3, None]\<rparr>"

definition middleClick :: Coordinate where
  "middleClick = \<lparr>coord_x = 50, coord_y = 5\<rparr>"

text \<open>The example slider with a step that is not a number; the rectangle of its track.\<close>

definition nanStepSlider :: Slider where
  "nanStepSlider = exampleSlider\<lparr>props := exampleProps\<lparr>prop_step := Some NaN\<rparr>\<rparr>"

definition exampleRect :: DOMRect where
  "exampleRect = \<lparr>rect_left = 0, rect_top = 0, rect_width = 100, rect_height = 10\<rparr>"

text \<open>The example slider, with no configured direction, in a right-to-left locale.\<close>

definition rtlLocaleSlider :: Slider where
  "rtlLocaleSlider = exampleSlider\<lparr>direction := rtl\<rparr>"

section \<open>Evaluation\<close>

lemmas example_defs = exampleSlider_def exampleProps_def exampleThumbs_def exampleClick_def

lemmas slider_defs = isMutable_def isDisabled_def isReadonly_def nullish_def orElse_def
  setValue_def setTouched_def updateValidity_def isNullOrUndefined_def
  getThumbValue_def getSliderRange_def getSliderStep_def getThumbRange_def
  getValueForPagePosition_def toNearestMultipleOf_def roundHalfAway_def
  setThumbValue_def arrayStore_def closer_def closest_def onMousedown_def rangeContains_def

section \<open>Defensive no-ops\<close>

text \<open>
  C10. While the track element is not mounted, \<^verbatim>\<open>getValueForPagePosition\<close> returns 0 for
  every coordinate; it has no failing branch.
\<close>

theorem unmeasured_track_maps_to_zero:
  "trackRef s = None \<Longrightarrow> getValueForPagePosition s pos = 0"
  by (simp add: getValueForPagePosition_def)

theorem unmeasured_track_maps_to_zero_witness:
  "trackRef (exampleSlider\<lparr>trackRef := None\<rparr>) = None \<and>
   getValueForPagePosition (exampleSlider\<lparr>trackRef := None\<rparr>) exampleClick = 0"
  using unmeasured_track_maps_to_zero [of "exampleSlider\<lparr>trackRef := None\<rparr>" exampleClick]
  by simp

text \<open>
  C9. On a slider that is disabled or readonly, \<^verbatim>\<open>setThumbValue\<close> and the track's
  pointer-down handler return the state as it was: the value, the touched flag and
  everything else are unchanged, and neither has a failing branch.
\<close>

theorem immutable_slider_ignores_input:
  "\<not> isMutable s \<Longrightarrow> setThumbValue s idx v = s \<and> onMousedown s e = s"
  by (simp add: setThumbValue_def onMousedown_def)

theorem immutable_slider_ignores_input_witness:
  "\<not> isMutable disabledSlider \<and> \<not> isMutable readonlySlider \<and>
   setThumbValue disabledSlider 0 3 = disabledSlider \<and>
   onMousedown disabledSlider exampleClick = disabledSlider \<and>
   setThumbValue readonlySlider 1 3 = readonlySlider \<and>
   onMousedown readonlySlider exampleClick = readonlySlider \<and>
   fieldValue (onMousedown readonlySlider exampleClick) = Arr [Some 2, Some 8] \<and>
   \<not> touched (onMousedown readonlySlider exampleClick)"
proof -
  have d: "\<not> isMutable disabledSlider"
    by (simp add: disabledSlider_def example_defs isMutable_def isDisabled_def nullish_def)
  have r: "\<not> isMutable readonlySlider"
    by (simp add: readonlySlider_def example_defs isMutable_def isReadonly_def nullish_def)
  have v: "fieldValue readonlySlider = Arr [Some 2, Some 8] \<and> \<not> touched readonlySlider"
    by (simp add: readonlySlider_def example_defs)
  show ?thesis
    using d r v immutable_slider_ignores_input [OF d, of 0 3 exampleClick]
      immutable_slider_ignores_input [OF r, of 1 3 exampleClick]
    by simp
qed

section \<open>The shape of the committed value\<close>

text \<open>
  C8. On a mutable slider with at most one registered thumb, \<^verbatim>\<open>setThumbValue(0, x)\<close>
  leaves the field value the scalar \<open>x\<close>, not the one-element array of \<open>x\<close>.
\<close>

theorem single_thumb_commit_is_scalar:
  "isMutable s \<Longrightarrow> length (thumbs s) \<le> 1 \<Longrightarrow>
   fieldValue (setThumbValue s 0 x) = Scalar x \<and> fieldValue (setThumbValue s 0 x) \<noteq> Arr [Some x]"
  by (simp add: setThumbValue_def setValue_def updateValidity_def)

theorem single_thumb_commit_is_scalar_witness:
  "isMutable singleThumbSlider \<and> length (thumbs singleThumbSlider) \<le> 1 \<and>
   fieldValue (setThumbValue singleThumbSlider 0 7) = Scalar 7 \<and>
   fieldValue (setThumbValue singleThumbSlider 0 7) \<noteq> Arr [Some 7]"
proof -
  have m: "isMutable singleThumbSlider"
    by (simp add: singleThumbSlider_def example_defs isMutable_def isDisabled_def
        isReadonly_def nullish_def)
  have l: "length (thumbs singleThumbSlider) \<le> 1"
    by (simp add: singleThumbSlider_def)
  show ?thesis
    using m l single_thumb_commit_is_scalar [OF m l, of 7] by simp
qed

section \<open>The track's pointer-down handler\<close>

subsection \<open>The search for the nearest thumb\<close>

lemma closestUpto_0: "cand_idx (closestUpto s t 0) = 0 \<and> cand_diff (closestUpto s t 0) = None"
  by (simp add: closestUpto_def)

lemma closestUpto_Suc:
  assumes "n < length (thumbs s)"
  shows "closestUpto s t (Suc n) = closer s t (closestUpto s t n) (thumbs s ! n, n)"
proof -
  have "zip (take (Suc n) (thumbs s)) [0..<Suc n] =
        zip (take n (thumbs s)) [0..<n] @ [(thumbs s ! n, n)]"
    using assms by (simp add: take_Suc_conv_app_nth)
  then show ?thesis by (simp add: closestUpto_def)
qed

lemma closestUpto_length: "closestUpto s t (length (thumbs s)) = closest s t"
  by (simp add: closestUpto_def closest_def)

lemma closer_skip:
  "\<not> rangeContains s n t \<or> getThumbValue s (int n) = None \<Longrightarrow>
   closer s t c (thumbs s ! n, n) = c"
  by (auto simp: closer_def rangeContains_def Let_def)

lemma closer_take:
  "rangeContains s n t \<Longrightarrow> getThumbValue s (int n) = Some v \<Longrightarrow>
   closer s t c (thumbs s ! n, n) =
     (if lessDiff \<bar>v - t\<bar> (cand_diff c)
      then \<lparr>cand_thumb = Some (thumbs s ! n), cand_idx = n, cand_diff = Some \<bar>v - t\<bar>\<rparr> else c)"
  by (auto simp: closer_def rangeContains_def Let_def)

lemma closestUpto_invariant:
  "n \<le> length (thumbs s) \<Longrightarrow>
   (cand_diff (closestUpto s t n) = None \<and> cand_idx (closestUpto s t n) = 0 \<and>
      (\<forall>j<n. \<not> rangeContains s j t \<or> getThumbValue s (int j) = None)) \<or>
   (\<exists>vk. cand_diff (closestUpto s t n) = Some \<bar>vk - t\<bar> \<and>
      nearestAmong s t n (cand_idx (closestUpto s t n)) vk)"
proof (induction n)
  case 0
  then show ?case using closestUpto_0 [of s t] by simp
next
  case (Suc n)
  let ?c = "closestUpto s t n"
  have n: "n < length (thumbs s)" using Suc.prems by simp
  have step: "closestUpto s t (Suc n) = closer s t ?c (thumbs s ! n, n)"
    using n by (rule closestUpto_Suc)
  have IH: "(cand_diff ?c = None \<and> cand_idx ?c = 0 \<and>
      (\<forall>j<n. \<not> rangeContains s j t \<or> getThumbValue s (int j) = None)) \<or>
     (\<exists>vk. cand_diff ?c = Some \<bar>vk - t\<bar> \<and> nearestAmong s t n (cand_idx ?c) vk)"
    using Suc.IH n by simp
  show ?case
  proof (cases "rangeContains s n t \<and> getThumbValue s (int n) \<noteq> None")
    case False
    then have same: "closestUpto s t (Suc n) = ?c"
      using step closer_skip [of s n t ?c] by auto
    from IH show ?thesis
    proof
      assume "cand_diff ?c = None \<and> cand_idx ?c = 0 \<and>
        (\<forall>j<n. \<not> rangeContains s j t \<or> getThumbValue s (int j) = None)"
      then show ?thesis using same False by (auto simp: less_Suc_eq)
    next
      assume "\<exists>vk. cand_diff ?c = Some \<bar>vk - t\<bar> \<and> nearestAmong s t n (cand_idx ?c) vk"
      then obtain vk where vk: "cand_diff ?c = Some \<bar>vk - t\<bar>" "nearestAmong s t n (cand_idx ?c) vk"
        by blast
      have "nearestAmong s t (Suc n) (cand_idx ?c) vk"
        using vk(2) False unfolding nearestAmong_def by (auto simp: less_Suc_eq)
      then show ?thesis using same vk(1) by auto
    qed
  next
    case True
    then obtain v where v: "rangeContains s n t" "getThumbValue s (int n) = Some v" by auto
    have take: "closestUpto s t (Suc n) =
      (if lessDiff \<bar>v - t\<bar> (cand_diff ?c)
       then \<lparr>cand_thumb = Some (thumbs s ! n), cand_idx = n, cand_diff = Some \<bar>v - t\<bar>\<rparr> else ?c)"
      using step closer_take [OF v, of ?c] by simp
    from IH show ?thesis
    proof
      assume none: "cand_diff ?c = None \<and> cand_idx ?c = 0 \<and>
        (\<forall>j<n. \<not> rangeContains s j t \<or> getThumbValue s (int j) = None)"
      then have new: "closestUpto s t (Suc n) =
          \<lparr>cand_thumb = Some (thumbs s ! n), cand_idx = n, cand_diff = Some \<bar>v - t\<bar>\<rparr>"
        using take by simp
      have "nearestAmong s t (Suc n) n v"
        using none v unfolding nearestAmong_def by (auto simp: less_Suc_eq)
      then show ?thesis using new by auto
    next
      assume "\<exists>vk. cand_diff ?c = Some \<bar>vk - t\<bar> \<and> nearestAmong s t n (cand_idx ?c) vk"
      then obtain vk where vk: "cand_diff ?c = Some \<bar>vk - t\<bar>" "nearestAmong s t n (cand_idx ?c) vk"
        by blast
      show ?thesis
      proof (cases "\<bar>v - t\<bar> < \<bar>vk - t\<bar>")
        case True
        then have new: "closestUpto s t (Suc n) =
            \<lparr>cand_thumb = Some (thumbs s ! n), cand_idx = n, cand_diff = Some \<bar>v - t\<bar>\<rparr>"
          using take vk(1) by simp
        have "nearestAmong s t (Suc n) n v"
          using vk(2) v True unfolding nearestAmong_def by (fastforce simp: less_Suc_eq)
        then show ?thesis using new by auto
      next
        case False
        then have same: "closestUpto s t (Suc n) = ?c"
          using take vk(1) by simp
        have "nearestAmong s t (Suc n) (cand_idx ?c) vk"
          using vk(2) v False unfolding nearestAmong_def by (fastforce simp: less_Suc_eq)
        then show ?thesis using same vk(1) by auto
      qed
    qed
  qed
qed

lemma onMousedown_commits:
  "isMutable s \<Longrightarrow> trackRef s \<noteq> None \<Longrightarrow>
   onMousedown s e =
     setTouched (setThumbValue s (cand_idx (closest s (getValueForPagePosition s e)))
       (getValueForPagePosition s e)) True"
  by (auto simp: onMousedown_def Let_def)

lemma closest_nearest:
  assumes "\<exists>i<length (thumbs s). rangeContains s i t \<and> getThumbValue s (int i) \<noteq> None"
  shows "\<exists>vk. nearestAmong s t (length (thumbs s)) (cand_idx (closest s t)) vk"
proof -
  have inv: "(cand_diff (closest s t) = None \<and> cand_idx (closest s t) = 0 \<and>
      (\<forall>j<length (thumbs s). \<not> rangeContains s j t \<or> getThumbValue s (int j) = None)) \<or>
     (\<exists>vk. cand_diff (closest s t) = Some \<bar>vk - t\<bar> \<and>
        nearestAmong s t (length (thumbs s)) (cand_idx (closest s t)) vk)"
    using closestUpto_invariant [of "length (thumbs s)" s t]
    by (simp only: closestUpto_length le_refl)
  from inv show ?thesis
  proof
    assume "cand_diff (closest s t) = None \<and> cand_idx (closest s t) = 0 \<and>
      (\<forall>j<length (thumbs s). \<not> rangeContains s j t \<or> getThumbValue s (int j) = None)"
    then have "\<forall>j<length (thumbs s). \<not> rangeContains s j t \<or> getThumbValue s (int j) = None"
      by simp
    with assms show ?thesis by auto
  next
    assume "\<exists>vk. cand_diff (closest s t) = Some \<bar>vk - t\<bar> \<and>
        nearestAmong s t (length (thumbs s)) (cand_idx (closest s t)) vk"
    then show ?thesis by auto
  qed
qed

lemma closest_none_eligible:
  assumes "\<forall>i<length (thumbs s). \<not> rangeContains s i t \<or> getThumbValue s (int i) = None"
  shows "cand_idx (closest s t) = 0"
proof -
  have inv: "(cand_diff (closest s t) = None \<and> cand_idx (closest s t) = 0 \<and>
      (\<forall>j<length (thumbs s). \<not> rangeContains s j t \<or> getThumbValue s (int j) = None)) \<or>
     (\<exists>vk. cand_diff (closest s t) = Some \<bar>vk - t\<bar> \<and>
        nearestAmong s t (length (thumbs s)) (cand_idx (closest s t)) vk)"
    using closestUpto_invariant [of "length (thumbs s)" s t]
    by (simp only: closestUpto_length le_refl)
  then show ?thesis
  proof
    assume "cand_diff (closest s t) = None \<and> cand_idx (closest s t) = 0 \<and>
      (\<forall>j<length (thumbs s). \<not> rangeContains s j t \<or> getThumbValue s (int j) = None)"
    then show ?thesis by simp
  next
    assume "\<exists>vk. cand_diff (closest s t) = Some \<bar>vk - t\<bar> \<and>
        nearestAmong s t (length (thumbs s)) (cand_idx (closest s t)) vk"
    then obtain vk where "nearestAmong s t (length (thumbs s)) (cand_idx (closest s t)) vk"
      by blast
    then have "cand_idx (closest s t) < length (thumbs s) \<and>
      rangeContains s (cand_idx (closest s t)) t \<and>
      getThumbValue s (int (cand_idx (closest s t))) = Some vk"
      by (simp add: nearestAmong_def)
    with assms show ?thesis by force
  qed
qed

lemma example_click_value: "getValueForPagePosition exampleSlider exampleClick = 3"
  by (simp add: example_defs getValueForPagePosition_def nullish_def orElse_def
      toNearestMultipleOf_def roundHalfAway_def)

lemma example_click_commit:
  "onMousedown exampleSlider exampleClick = setTouched (setThumbValue exampleSlider 0 3) True"
  by (simp add: example_defs slider_defs upt_rec)

lemma example_click_result:
  "fieldValue (onMousedown exampleSlider exampleClick) = Arr [Some 3, Some 8]"
  by (simp add: example_defs slider_defs upt_rec)

lemma example_mutable: "isMutable exampleSlider \<and> trackRef exampleSlider \<noteq> None"
  by (simp add: example_defs isMutable_def isDisabled_def isReadonly_def nullish_def)

lemma example_ranges:
  "rangeContains exampleSlider 0 3 \<and> getThumbValue exampleSlider 0 = Some 2"
  by (simp add: example_defs rangeContains_def getThumbRange_def getSliderRange_def
      getThumbValue_def nullish_def orElse_def)

lemma arrayStore_first: "arrayStore xs 0 v ! 0 = Some v \<and> 0 < length (arrayStore xs 0 v)"
  by (cases xs) (simp_all add: arrayStore_def)

lemma setThumbValue_first:
  "isMutable s \<Longrightarrow> getThumbValue (setThumbValue s 0 v) 0 = Some v"
  using arrayStore_first [of "filter (\<lambda>v. \<not> isNullOrUndefined v) (normalizeArrayable (fieldValue s))" v]
  by (simp add: setThumbValue_def getThumbValue_def setValue_def updateValidity_def Let_def)

subsection \<open>The thumb that receives the value\<close>

lemma crossed_mutable: "isMutable crossedSlider \<and> trackRef crossedSlider \<noteq> None"
  by (simp add: crossedSlider_def example_defs isMutable_def isDisabled_def isReadonly_def
      nullish_def)

lemma crossed_click_value: "getValueForPagePosition crossedSlider crossedClick = 4"
  by (simp add: crossedSlider_def crossedClick_def example_defs getValueForPagePosition_def
      nullish_def orElse_def toNearestMultipleOf_def roundHalfAway_def)

lemma crossed_ranges:
  "\<not> rangeContains crossedSlider 0 4 \<and> \<not> rangeContains crossedSlider 1 4"
  by (simp add: crossedSlider_def example_defs rangeContains_def getThumbRange_def
      getSliderRange_def getThumbValue_def nullish_def orElse_def)

text \<open>
  C1, as the claim states it, fails: when no thumb's range contains the target value,
  the target is still committed, to the thumb at position 0, outside its range: with the
  values 5 and 3 and a click that maps to 4, the field becomes 4 and 3. Nor is a range
  that contains the target enough: with the values 8 and 3 and a third thumb without a
  value, a click that maps to 5 is within the third thumb's range, and the field becomes
  5 and 3.
\<close>

theorem track_click_outside_every_range_moves_first_thumb:
  "isMutable crossedSlider \<and> trackRef crossedSlider \<noteq> None \<and>
   getValueForPagePosition crossedSlider crossedClick = 4 \<and>
   thumb_max (getThumbRange crossedSlider (thumbs crossedSlider ! 0)) = 3 \<and>
   thumb_min (getThumbRange crossedSlider (thumbs crossedSlider ! 1)) = 5 \<and>
   \<not> rangeContains crossedSlider 0 4 \<and> \<not> rangeContains crossedSlider 1 4 \<and>
   fieldValue (onMousedown crossedSlider crossedClick) = Arr [Some 4, Some 3] \<and>
   isMutable partlySetSlider \<and> trackRef partlySetSlider \<noteq> None \<and>
   getValueForPagePosition partlySetSlider middleClick = 5 \<and>
   rangeContains partlySetSlider 2 5 \<and> getThumbValue partlySetSlider 2 = None \<and>
   \<not> rangeContains partlySetSlider 0 5 \<and>
   fieldValue (onMousedown partlySetSlider middleClick) = Arr [Some 5, Some 3]"
  by (simp add: crossedSlider_def crossedClick_def partlySetSlider_def middleClick_def
      useSliderThumbRegistration_def example_defs slider_defs upt_rec eval_nat_numeral)

text \<open>
  C1, amended. A pointer-down on the track of a mutable, measured slider computes the
  target value \<open>t\<close>. When some registered thumb has a range that contains \<open>t\<close> and a value
  that is set, the handler considers only such thumbs and commits \<open>t\<close> (marking the field
  touched) to the one whose value is nearest to \<open>t\<close>, the lowest position winning among
  equally near ones. When no registered thumb is such, it commits \<open>t\<close> to the thumb at
  position 0. In the scenario of bounds 0 to 10, step 1, thumbs at 2 and 8 and a click
  that maps to 3, thumb 0 receives the value and the field becomes 3 and 8.
\<close>

theorem track_click_commits_to_nearest_or_first:
  "(isMutable s \<and> trackRef s \<noteq> None \<and> t = getValueForPagePosition s e \<and>
    (\<exists>i<length (thumbs s). rangeContains s i t \<and> getThumbValue s (int i) \<noteq> None) \<longrightarrow>
    (\<exists>k vk. k < length (thumbs s) \<and> rangeContains s k t \<and> getThumbValue s (int k) = Some vk \<and>
       (\<forall>j<length (thumbs s). \<forall>v.
          rangeContains s j t \<and> getThumbValue s (int j) = Some v \<longrightarrow>
          \<bar>vk - t\<bar> \<le> \<bar>v - t\<bar> \<and> (\<bar>v - t\<bar> = \<bar>vk - t\<bar> \<longrightarrow> k \<le> j)) \<and>
       onMousedown s e = setTouched (setThumbValue s k t) True)) \<and>
   (isMutable s \<and> trackRef s \<noteq> None \<and> t = getValueForPagePosition s e \<and>
    (\<forall>i<length (thumbs s). \<not> rangeContains s i t \<or> getThumbValue s (int i) = None) \<longrightarrow>
    onMousedown s e = setTouched (setThumbValue s 0 t) True) \<and>
   (getValueForPagePosition exampleSlider exampleClick = 3 \<and>
    onMousedown exampleSlider exampleClick =
      setTouched (setThumbValue exampleSlider 0 3) True \<and>
    fieldValue (onMousedown exampleSlider exampleClick) = Arr [Some 3, Some 8])"
proof -
  have nearest: "isMutable s \<and> trackRef s \<noteq> None \<and> t = getValueForPagePosition s e \<and>
    (\<exists>i<length (thumbs s). rangeContains s i t \<and> getThumbValue s (int i) \<noteq> None) \<longrightarrow>
    (\<exists>k vk. k < length (thumbs s) \<and> rangeContains s k t \<and> getThumbValue s (int k) = Some vk \<and>
       (\<forall>j<length (thumbs s). \<forall>v.
          rangeContains s j t \<and> getThumbValue s (int j) = Some v \<longrightarrow>
          \<bar>vk - t\<bar> \<le> \<bar>v - t\<bar> \<and> (\<bar>v - t\<bar> = \<bar>vk - t\<bar> \<longrightarrow> k \<le> j)) \<and>
       onMousedown s e = setTouched (setThumbValue s k t) True)"
  proof
    assume a: "isMutable s \<and> trackRef s \<noteq> None \<and> t = getValueForPagePosition s e \<and>
      (\<exists>i<length (thumbs s). rangeContains s i t \<and> getThumbValue s (int i) \<noteq> None)"
    let ?k = "cand_idx (closest s t)"
    note m = a [THEN conjunct1] and tr = a [THEN conjunct2, THEN conjunct1]
      and t = a [THEN conjunct2, THEN conjunct2, THEN conjunct1, symmetric]
      and ex = a [THEN conjunct2, THEN conjunct2, THEN conjunct2]
    from ex obtain vk where vk: "nearestAmong s t (length (thumbs s)) ?k vk"
      using closest_nearest by blast
    have c: "onMousedown s e = setTouched (setThumbValue s ?k t) True"
      using onMousedown_commits [OF m tr, of e] by (simp only: t)
    have n: "?k < length (thumbs s) \<and> rangeContains s ?k t \<and>
        getThumbValue s (int ?k) = Some vk \<and>
        (\<forall>j<length (thumbs s). \<forall>v.
            rangeContains s j t \<and> getThumbValue s (int j) = Some v \<longrightarrow>
            \<bar>vk - t\<bar> \<le> \<bar>v - t\<bar> \<and> (\<bar>v - t\<bar> = \<bar>vk - t\<bar> \<longrightarrow> ?k \<le> j))"
      using vk unfolding nearestAmong_def .
    show "\<exists>k vk. k < length (thumbs s) \<and> rangeContains s k t \<and>
         getThumbValue s (int k) = Some vk \<and>
         (\<forall>j<length (thumbs s). \<forall>v.
            rangeContains s j t \<and> getThumbValue s (int j) = Some v \<longrightarrow>
            \<bar>vk - t\<bar> \<le> \<bar>v - t\<bar> \<and> (\<bar>v - t\<bar> = \<bar>vk - t\<bar> \<longrightarrow> k \<le> j)) \<and>
         onMousedown s e = setTouched (setThumbValue s k t) True"
      apply (intro exI conjI)
          apply (rule n [THEN conjunct1])
         apply (rule n [THEN conjunct2, THEN conjunct1])
        apply (rule n [THEN conjunct2, THEN conjunct2, THEN conjunct1])
       apply (rule n [THEN conjunct2, THEN conjunct2, THEN conjunct2])
      apply (rule c)
      done
  qed
  have first: "isMutable s \<and> trackRef s \<noteq> None \<and> t = getValueForPagePosition s e \<and>
    (\<forall>i<length (thumbs s). \<not> rangeContains s i t \<or> getThumbValue s (int i) = None) \<longrightarrow>
    onMousedown s e = setTouched (setThumbValue s 0 t) True"
  proof
    assume a: "isMutable s \<and> trackRef s \<noteq> None \<and> t = getValueForPagePosition s e \<and>
      (\<forall>i<length (thumbs s). \<not> rangeContains s i t \<or> getThumbValue s (int i) = None)"
    note m = a [THEN conjunct1] and tr = a [THEN conjunct2, THEN conjunct1]
      and t = a [THEN conjunct2, THEN conjunct2, THEN conjunct1, symmetric]
      and none = a [THEN conjunct2, THEN conjunct2, THEN conjunct2]
    have k: "cand_idx (closest s t) = 0" using none by (rule closest_none_eligible)
    show "onMousedown s e = setTouched (setThumbValue s 0 t) True"
      using onMousedown_commits [OF m tr, of e] by (simp only: t k)
  qed
  have scenario: "getValueForPagePosition exampleSlider exampleClick = 3 \<and>
    onMousedown exampleSlider exampleClick =
      setTouched (setThumbValue exampleSlider 0 3) True \<and>
    fieldValue (onMousedown exampleSlider exampleClick) = Arr [Some 3, Some 8]"
    using example_click_value example_click_commit example_click_result by (intro conjI)
  show ?thesis
    apply (rule conjI)
     apply (rule nearest)
    apply (rule conjI)
     apply (rule first)
    apply (rule scenario)
    done
qed

theorem track_click_commits_to_nearest_or_first_witness:
  "isMutable exampleSlider \<and> trackRef exampleSlider \<noteq> None \<and>
   3 = getValueForPagePosition exampleSlider exampleClick \<and>
   (\<exists>i<length (thumbs exampleSlider).
      rangeContains exampleSlider i 3 \<and> getThumbValue exampleSlider (int i) \<noteq> None) \<and>
   (\<exists>k vk. k < length (thumbs exampleSlider) \<and> rangeContains exampleSlider k 3 \<and>
      getThumbValue exampleSlider (int k) = Some vk \<and>
      (\<forall>j<length (thumbs exampleSlider). \<forall>v.
          rangeContains exampleSlider j 3 \<and> getThumbValue exampleSlider (int j) = Some v \<longrightarrow>
          \<bar>vk - 3\<bar> \<le> \<bar>v - 3\<bar> \<and> (\<bar>v - 3\<bar> = \<bar>vk - 3\<bar> \<longrightarrow> k \<le> j)) \<and>
      onMousedown exampleSlider exampleClick = setTouched (setThumbValue exampleSlider k 3) True) \<and>
   isMutable crossedSlider \<and> trackRef crossedSlider \<noteq> None \<and>
   4 = getValueForPagePosition crossedSlider crossedClick \<and>
   \<not> rangeContains crossedSlider 0 4 \<and> \<not> rangeContains crossedSlider 1 4 \<and>
   onMousedown crossedSlider crossedClick = setTouched (setThumbValue crossedSlider 0 4) True"
proof -
  have h1: "isMutable exampleSlider" using example_mutable by (rule conjunct1)
  have h2: "trackRef exampleSlider \<noteq> None" using example_mutable by (rule conjunct2)
  have h3: "3 = getValueForPagePosition exampleSlider exampleClick"
    using example_click_value by (rule sym)
  have h4: "\<exists>i<length (thumbs exampleSlider).
      rangeContains exampleSlider i 3 \<and> getThumbValue exampleSlider (int i) \<noteq> None"
  proof (intro exI conjI)
    show "0 < length (thumbs exampleSlider)" by (simp add: example_defs)
    show "rangeContains exampleSlider 0 3" using example_ranges by simp
    show "getThumbValue exampleSlider (int 0) \<noteq> None" using example_ranges by simp
  qed
  have hyp: "isMutable exampleSlider \<and> trackRef exampleSlider \<noteq> None \<and>
     3 = getValueForPagePosition exampleSlider exampleClick \<and>
     (\<exists>i<length (thumbs exampleSlider).
        rangeContains exampleSlider i 3 \<and> getThumbValue exampleSlider (int i) \<noteq> None)"
    using h1 h2 h3 h4 by (intro conjI)
  note general = track_click_commits_to_nearest_or_first
    [of exampleSlider 3 exampleClick, THEN conjunct1, THEN mp, OF hyp]
  have g1: "isMutable crossedSlider" using crossed_mutable by (rule conjunct1)
  have g2: "trackRef crossedSlider \<noteq> None" using crossed_mutable by (rule conjunct2)
  have g3: "4 = getValueForPagePosition crossedSlider crossedClick"
    using crossed_click_value by (rule sym)
  have g4: "\<forall>i<length (thumbs crossedSlider).
      \<not> rangeContains crossedSlider i 4 \<or> getThumbValue crossedSlider (int i) = None"
    using crossed_ranges by (simp add: crossedSlider_def example_defs less_Suc_eq numeral_2_eq_2)
  have hyp': "isMutable crossedSlider \<and> trackRef crossedSlider \<noteq> None \<and>
     4 = getValueForPagePosition crossedSlider crossedClick \<and>
     (\<forall>i<length (thumbs crossedSlider).
        \<not> rangeContains crossedSlider i 4 \<or> getThumbValue crossedSlider (int i) = None)"
    using g1 g2 g3 g4 by (intro conjI)
  note fallback = track_click_commits_to_nearest_or_first
    [of crossedSlider 4 crossedClick, THEN conjunct2, THEN conjunct1, THEN mp, OF hyp']
  show ?thesis
    apply (intro conjI)
              apply (rule h1)
             apply (rule h2)
            apply (rule h3)
           apply (rule h4)
          apply (rule general)
         apply (rule g1)
        apply (rule g2)
       apply (rule g3)
      apply (rule crossed_ranges [THEN conjunct1])
     apply (rule crossed_ranges [THEN conjunct2])
    apply (rule fallback)
    done
qed

text \<open>
  C4. A pointer-down on the track of a mutable, measured slider with at least one thumb,
  when every thumb either has a range that does not contain the target value or has no
  value, is not dropped: the target value is committed to the thumb at position 0, whose
  value it becomes, and the field is marked touched.
\<close>

theorem track_click_falls_back_to_first_thumb:
  "isMutable s \<Longrightarrow> trackRef s \<noteq> None \<Longrightarrow> thumbs s \<noteq> [] \<Longrightarrow>
   t = getValueForPagePosition s e \<Longrightarrow>
   \<forall>i<length (thumbs s). \<not> rangeContains s i t \<or> getThumbValue s (int i) = None \<Longrightarrow>
   onMousedown s e = setTouched (setThumbValue s 0 t) True \<and>
   getThumbValue (onMousedown s e) 0 = Some t \<and> touched (onMousedown s e)"
proof -
  assume m: "isMutable s" and tr: "trackRef s \<noteq> None" and t: "t = getValueForPagePosition s e"
    and none: "\<forall>i<length (thumbs s). \<not> rangeContains s i t \<or> getThumbValue s (int i) = None"
  have k: "cand_idx (closest s t) = 0" using none by (rule closest_none_eligible)
  have c: "onMousedown s e = setTouched (setThumbValue s 0 t) True"
    using onMousedown_commits [OF m tr, of e] k by (simp only: t [symmetric])
  have v: "getThumbValue (setTouched (setThumbValue s 0 t) True) 0 = Some t"
    using setThumbValue_first [OF m, of t] by (simp add: getThumbValue_def setTouched_def)
  have d: "touched (setTouched (setThumbValue s 0 t) True)"
    by (simp add: setTouched_def)
  show ?thesis using v d by (simp only: c simp_thms)
qed

theorem track_click_falls_back_to_first_thumb_witness:
  "isMutable unsetSlider \<and> trackRef unsetSlider \<noteq> None \<and> thumbs unsetSlider \<noteq> [] \<and>
   3 = getValueForPagePosition unsetSlider exampleClick \<and>
   getThumbValue unsetSlider 0 = None \<and> getThumbValue unsetSlider 1 = None \<and>
   onMousedown unsetSlider exampleClick = setTouched (setThumbValue unsetSlider 0 3) True \<and>
   getThumbValue (onMousedown unsetSlider exampleClick) 0 = Some 3 \<and>
   touched (onMousedown unsetSlider exampleClick) \<and>
   fieldValue (setThumbValue unsetSlider 0 3) = Arr [Some 3]"
proof -
  have m: "isMutable unsetSlider"
    by (simp add: unsetSlider_def example_defs isMutable_def isDisabled_def isReadonly_def nullish_def)
  have tr: "trackRef unsetSlider \<noteq> None" by (simp add: unsetSlider_def example_defs)
  have th: "thumbs unsetSlider \<noteq> []" by (simp add: unsetSlider_def example_defs)
  have t: "3 = getValueForPagePosition unsetSlider exampleClick"
    by (simp add: unsetSlider_def example_defs getValueForPagePosition_def nullish_def orElse_def
      toNearestMultipleOf_def roundHalfAway_def)
  have u: "\<And>i. getThumbValue unsetSlider i = None"
    by (simp add: unsetSlider_def getThumbValue_def)
  have none: "\<forall>i<length (thumbs unsetSlider).
      \<not> rangeContains unsetSlider i 3 \<or> getThumbValue unsetSlider (int i) = None"
    using u by simp
  have f: "fieldValue (setThumbValue unsetSlider 0 3) = Arr [Some 3]"
    by (simp add: unsetSlider_def example_defs slider_defs)
  note r = track_click_falls_back_to_first_thumb [OF m tr th t none]
  show ?thesis
    apply (intro conjI)
             apply (rule m)
            apply (rule tr)
           apply (rule th)
          apply (rule t)
         apply (rule u)
        apply (rule u)
       apply (rule r [THEN conjunct1])
      apply (rule r [THEN conjunct2, THEN conjunct1])
     apply (rule r [THEN conjunct2, THEN conjunct2])
    apply (rule f)
    done
qed

section \<open>The step\<close>

lemma getValueForPagePosition_measured:
  "trackRef s = Some rect \<Longrightarrow>
   getValueForPagePosition s pos =
     toNearestMultipleOf (valueBeforeQuantizing s rect pos) (getSliderStep s)"
  by (simp add: getValueForPagePosition_def valueBeforeQuantizing_def getSliderStep_def Let_def)

lemma valueBeforeQuantizing_step:
  "valueBeforeQuantizing (s\<lparr>props := (props s)\<lparr>prop_step := x\<rparr>\<rparr>) rect pos =
   valueBeforeQuantizing s rect pos"
  by (simp add: valueBeforeQuantizing_def)

lemma getValueForPagePosition_step_one:
  assumes "getSliderStep s = 1"
  shows "getValueForPagePosition s pos =
     getValueForPagePosition (s\<lparr>props := (props s)\<lparr>prop_step := Some (Num 1)\<rparr>\<rparr>) pos"
proof (cases "trackRef s")
  case None
  then show ?thesis by (simp add: getValueForPagePosition_def)
next
  case (Some rect)
  let ?s1 = "s\<lparr>props := (props s)\<lparr>prop_step := Some (Num 1)\<rparr>\<rparr>"
  have t: "trackRef ?s1 = Some rect" using Some by simp
  have o: "getSliderStep ?s1 = 1" by (simp add: getSliderStep_def orElse_def)
  show ?thesis
    by (simp only: getValueForPagePosition_measured [OF Some]
        getValueForPagePosition_measured [OF t] valueBeforeQuantizing_step assms o)
qed

lemma getSliderStep_falsy:
  "prop_step (props s) = None \<or> prop_step (props s) = Some NaN \<or>
   prop_step (props s) = Some (Num 0) \<Longrightarrow> getSliderStep s = 1"
  by (auto simp: getSliderStep_def orElse_def)

lemma getSliderStep_negative:
  "prop_step (props s) = Some (Num st) \<Longrightarrow> st < 0 \<Longrightarrow> getSliderStep s = st"
  by (simp add: getSliderStep_def orElse_def)

text \<open>
  C5, as the claim states it, fails: a step of \<open>-2\<close> is reported to the thumbs as \<open>-2\<close>, not
  as 1, and a click that a step of 1 maps to 3 is mapped to 4.
\<close>

theorem negative_step_is_kept:
  "prop_step (props negativeStepSlider) = Some (Num (- 2)) \<and>
   getSliderStep negativeStepSlider = - 2 \<and>
   getSliderStep negativeStepSlider \<noteq> 1 \<and>
   getValueForPagePosition negativeStepSlider offGridClick = 4 \<and>
   getValueForPagePosition
     (negativeStepSlider\<lparr>props := (props negativeStepSlider)\<lparr>prop_step := Some (Num 1)\<rparr>\<rparr>)
     offGridClick = 3"
  by (simp add: negativeStepSlider_def offGridClick_def example_defs getSliderStep_def
      getValueForPagePosition_def orElse_def nullish_def toNearestMultipleOf_def roundHalfAway_def)

text \<open>
  C5, amended. A step that is invalid (unset, or not a number) or zero behaves as the
  step 1 wherever it is used: the position-to-value mapping quantizes with step 1, so it
  is the mapping of the slider with step 1, and the step reported to the thumbs is 1. A
  negative step is not replaced: the mapping quantizes with the negative step, and that
  step is reported to the thumbs.
\<close>

theorem invalid_or_zero_step_is_one:
  "(prop_step (props s) = None \<or> prop_step (props s) = Some NaN \<or>
    prop_step (props s) = Some (Num 0) \<longrightarrow>
      getSliderStep s = 1 \<and>
      getValueForPagePosition s pos =
        getValueForPagePosition (s\<lparr>props := (props s)\<lparr>prop_step := Some (Num 1)\<rparr>\<rparr>) pos \<and>
      (trackRef s = Some rect \<longrightarrow>
         getValueForPagePosition s pos =
           toNearestMultipleOf (valueBeforeQuantizing s rect pos) 1)) \<and>
   (prop_step (props s) = Some (Num st) \<and> st < 0 \<longrightarrow>
      getSliderStep s = st \<and>
      (trackRef s = Some rect \<longrightarrow>
         getValueForPagePosition s pos =
           toNearestMultipleOf (valueBeforeQuantizing s rect pos) st))"
proof -
  have falsy: "prop_step (props s) = None \<or> prop_step (props s) = Some NaN \<or>
    prop_step (props s) = Some (Num 0) \<longrightarrow>
      getSliderStep s = 1 \<and>
      getValueForPagePosition s pos =
        getValueForPagePosition (s\<lparr>props := (props s)\<lparr>prop_step := Some (Num 1)\<rparr>\<rparr>) pos \<and>
      (trackRef s = Some rect \<longrightarrow>
         getValueForPagePosition s pos =
           toNearestMultipleOf (valueBeforeQuantizing s rect pos) 1)"
  proof
    assume a: "prop_step (props s) = None \<or> prop_step (props s) = Some NaN \<or>
      prop_step (props s) = Some (Num 0)"
    let ?s1 = "s\<lparr>props := (props s)\<lparr>prop_step := Some (Num 1)\<rparr>\<rparr>"
    have one: "getSliderStep s = 1" using a by (rule getSliderStep_falsy)
    have same: "getValueForPagePosition s pos = getValueForPagePosition ?s1 pos"
      using one by (rule getValueForPagePosition_step_one)
    have q: "trackRef s = Some rect \<longrightarrow>
         getValueForPagePosition s pos =
           toNearestMultipleOf (valueBeforeQuantizing s rect pos) 1"
      using getValueForPagePosition_measured [of s rect pos] by (simp add: one)
    show "getSliderStep s = 1 \<and>
      getValueForPagePosition s pos = getValueForPagePosition ?s1 pos \<and>
      (trackRef s = Some rect \<longrightarrow>
         getValueForPagePosition s pos =
           toNearestMultipleOf (valueBeforeQuantizing s rect pos) 1)"
      using one same q by (intro conjI)
  qed
  have negative: "prop_step (props s) = Some (Num st) \<and> st < 0 \<longrightarrow>
      getSliderStep s = st \<and>
      (trackRef s = Some rect \<longrightarrow>
         getValueForPagePosition s pos =
           toNearestMultipleOf (valueBeforeQuantizing s rect pos) st)"
  proof
    assume a: "prop_step (props s) = Some (Num st) \<and> st < 0"
    have st: "getSliderStep s = st"
      using a [THEN conjunct1] a [THEN conjunct2] by (rule getSliderStep_negative)
    have q: "trackRef s = Some rect \<longrightarrow>
         getValueForPagePosition s pos =
           toNearestMultipleOf (valueBeforeQuantizing s rect pos) st"
      using getValueForPagePosition_measured [of s rect pos] by (simp add: st)
    show "getSliderStep s = st \<and>
      (trackRef s = Some rect \<longrightarrow>
         getValueForPagePosition s pos =
           toNearestMultipleOf (valueBeforeQuantizing s rect pos) st)"
      using st q by (intro conjI)
  qed
  show ?thesis using falsy negative by (rule conjI)
qed

theorem invalid_or_zero_step_is_one_witness:
  "prop_step (props zeroStepSlider) = Some (Num 0) \<and>
   prop_step (props nanStepSlider) = Some NaN \<and>
   prop_step (props negativeStepSlider) = Some (Num (- 2)) \<and> (- 2 :: real) < 0 \<and>
   trackRef zeroStepSlider = Some exampleRect \<and> trackRef nanStepSlider = Some exampleRect \<and>
   trackRef negativeStepSlider = Some exampleRect \<and>
   getSliderStep zeroStepSlider = 1 \<and> getSliderStep nanStepSlider = 1 \<and>
   getSliderStep negativeStepSlider = - 2 \<and>
   getValueForPagePosition zeroStepSlider offGridClick =
     toNearestMultipleOf (valueBeforeQuantizing zeroStepSlider exampleRect offGridClick) 1 \<and>
   getValueForPagePosition nanStepSlider offGridClick =
     toNearestMultipleOf (valueBeforeQuantizing nanStepSlider exampleRect offGridClick) 1 \<and>
   getValueForPagePosition negativeStepSlider offGridClick =
     toNearestMultipleOf (valueBeforeQuantizing negativeStepSlider exampleRect offGridClick) (- 2) \<and>
   getValueForPagePosition nanStepSlider offGridClick =
     getValueForPagePosition
       (nanStepSlider\<lparr>props := (props nanStepSlider)\<lparr>prop_step := Some (Num 1)\<rparr>\<rparr>) offGridClick \<and>
   getValueForPagePosition zeroStepSlider offGridClick = 3 \<and>
   getValueForPagePosition nanStepSlider offGridClick = 3 \<and>
   getValueForPagePosition negativeStepSlider offGridClick = 4"
proof -
  have z: "prop_step (props zeroStepSlider) = Some (Num 0)"
    by (simp add: zeroStepSlider_def example_defs)
  have na: "prop_step (props nanStepSlider) = Some NaN"
    by (simp add: nanStepSlider_def example_defs)
  have n: "prop_step (props negativeStepSlider) = Some (Num (- 2)) \<and> (- 2 :: real) < 0"
    by (simp add: negativeStepSlider_def example_defs)
  have tz: "trackRef zeroStepSlider = Some exampleRect"
    by (simp add: zeroStepSlider_def exampleRect_def example_defs)
  have tna: "trackRef nanStepSlider = Some exampleRect"
    by (simp add: nanStepSlider_def exampleRect_def example_defs)
  have tn: "trackRef negativeStepSlider = Some exampleRect"
    by (simp add: negativeStepSlider_def exampleRect_def example_defs)
  have v: "getValueForPagePosition zeroStepSlider offGridClick = 3 \<and>
     getValueForPagePosition nanStepSlider offGridClick = 3 \<and>
     getValueForPagePosition negativeStepSlider offGridClick = 4"
    by (simp add: zeroStepSlider_def nanStepSlider_def negativeStepSlider_def offGridClick_def
        example_defs getValueForPagePosition_def orElse_def nullish_def toNearestMultipleOf_def
        roundHalfAway_def)
  note a = invalid_or_zero_step_is_one [of zeroStepSlider offGridClick exampleRect 0,
      THEN conjunct1, THEN mp, OF disjI2, OF disjI2, OF z]
  note b = invalid_or_zero_step_is_one [of nanStepSlider offGridClick exampleRect 0,
      THEN conjunct1, THEN mp, OF disjI2, OF disjI1, OF na]
  note c = invalid_or_zero_step_is_one [of negativeStepSlider offGridClick exampleRect "- 2",
      THEN conjunct2, THEN mp, OF n]
  show ?thesis
    apply (intro conjI)
                   apply (rule z)
                  apply (rule na)
                 apply (rule n [THEN conjunct1])
                apply (rule n [THEN conjunct2])
               apply (rule tz)
              apply (rule tna)
             apply (rule tn)
            apply (rule a [THEN conjunct1])
           apply (rule b [THEN conjunct1])
          apply (rule c [THEN conjunct1])
         apply (rule a [THEN conjunct2, THEN conjunct2, THEN mp, OF tz])
        apply (rule b [THEN conjunct2, THEN conjunct2, THEN mp, OF tna])
       apply (rule c [THEN conjunct2, THEN mp, OF tn])
      apply (rule b [THEN conjunct2, THEN conjunct1])
     apply (rule v [THEN conjunct1])
    apply (rule v [THEN conjunct2, THEN conjunct1])
    apply (rule v [THEN conjunct2, THEN conjunct2])
    done
qed

section \<open>The range of a thumb\<close>

lemma indexOf_bounds: "- 1 \<le> indexOf xs a \<and> indexOf xs a < int (length xs)"
  by (induction xs) (auto simp: Let_def)

lemma indexOf_nth: "indexOf xs a = int i \<Longrightarrow> i < length xs \<and> xs ! i = a"
proof (induction xs arbitrary: i)
  case Nil
  then show ?case by simp
next
  case (Cons b bs)
  show ?case
  proof (cases "b = a")
    case True
    with Cons.prems show ?thesis by simp
  next
    case False
    with Cons.prems have r: "0 \<le> indexOf bs a" "indexOf bs a + 1 = int i"
      by (auto simp: Let_def split: if_splits)
    then obtain j where j: "i = Suc j" "indexOf bs a = int j"
      by (cases i) auto
    with Cons.IH [of j] show ?thesis by simp
  qed
qed

lemma getThumbValue_negative: "idx < 0 \<Longrightarrow> getThumbValue s idx = None"
  by (simp add: getThumbValue_def split: FieldValue.splits)

lemma getThumbRange_at_index:
  assumes idx: "indexOf (thumbs s) th = int i"
  shows "thumb_min (getThumbRange s th) =
     (if 0 < i then nullish (getThumbValue s (int i - 1)) (range_min (getSliderRange s))
      else range_min (getSliderRange s))"
    and "thumb_max (getThumbRange s th) =
     nullish (getThumbValue s (int i + 1)) (range_max (getSliderRange s))"
    and "absoluteMin (getThumbRange s th) = range_min (getSliderRange s)"
    and "absoluteMax (getThumbRange s th) = range_max (getSliderRange s)"
proof -
  show "thumb_min (getThumbRange s th) =
     (if 0 < i then nullish (getThumbValue s (int i - 1)) (range_min (getSliderRange s))
      else range_min (getSliderRange s))"
    using getThumbValue_negative [of "- 1" s]
    by (simp add: getThumbRange_def idx Let_def nullish_def)
  show "thumb_max (getThumbRange s th) =
     nullish (getThumbValue s (int i + 1)) (range_max (getSliderRange s))"
    by (simp add: getThumbRange_def idx Let_def)
  show "absoluteMin (getThumbRange s th) = range_min (getSliderRange s)"
    by (simp add: getThumbRange_def Let_def)
  show "absoluteMax (getThumbRange s th) = range_max (getSliderRange s)"
    by (simp add: getThumbRange_def Let_def)
qed

lemma last_thumb_has_no_follower:
  assumes i: "i < length (thumbs s)" and last: "getThumbValue s (int (length (thumbs s))) = None"
    and no: "\<not> i + 1 < length (thumbs s)"
  shows "getThumbValue s (int i + 1) = None"
proof -
  from i no have "length (thumbs s) = Suc i" by simp
  then have "int (length (thumbs s)) = int i + 1" by simp
  with last show ?thesis by simp
qed

lemma example_second_thumb:
  "indexOf (thumbs exampleSlider) \<lparr>thumb_ref = 1, thumb_id = ''b''\<rparr> = int 1"
  by (simp add: example_defs)

lemma example_first_thumb:
  "indexOf (thumbs exampleSlider) \<lparr>thumb_ref = 0, thumb_id = ''a''\<rparr> = int 0"
  by (simp add: example_defs)

text \<open>
  C3, as the claim states it, fails: once the second thumb of the example is gone, the
  first thumb has no following thumb, and its maximum is still the departed thumb's
  value 8, not the slider's maximum 10.
\<close>

theorem departed_thumb_still_bounds_its_neighbour:
  "thumbs departedSlider = [\<lparr>thumb_ref = 0, thumb_id = ''a''\<rparr>] \<and>
   fieldValue departedSlider = Arr [Some 2, Some 8] \<and>
   indexOf (thumbs departedSlider) \<lparr>thumb_ref = 0, thumb_id = ''a''\<rparr> = 0 \<and>
   length (thumbs departedSlider) = 1 \<and>
   thumb_max (getThumbRange departedSlider \<lparr>thumb_ref = 0, thumb_id = ''a''\<rparr>) = 8 \<and>
   absoluteMax (getThumbRange departedSlider \<lparr>thumb_ref = 0, thumb_id = ''a''\<rparr>) = 10 \<and>
   range_max (specThumbRange departedSlider 0) = 10"
  by (simp add: departedSlider_def onBeforeUnmount_def example_defs specThumbRange_def
      getThumbRange_def getSliderRange_def getThumbValue_def nullish_def orElse_def)

text \<open>
  C3, amended. For the thumb whose index in the registry is \<open>i\<close>, the minimum is the value
  at position \<open>i - 1\<close> of the field value, or the slider's minimum when \<open>i\<close> is 0 or that
  value is unset; the maximum is the value at position \<open>i + 1\<close> of the field value, whether
  a thumb is registered there or not, or the slider's maximum when that value is unset;
  both bounds are numbers, and the absolute bounds are the slider's. When no value is set
  at the position after the last registered thumb, this is the range the specification
  words.
\<close>

theorem thumb_range_reads_neighbouring_values:
  "indexOf (thumbs s) th = int i \<Longrightarrow>
   thumb_min (getThumbRange s th) =
     (if 0 < i then nullish (getThumbValue s (int i - 1)) (range_min (getSliderRange s))
      else range_min (getSliderRange s)) \<and>
   thumb_max (getThumbRange s th) =
     nullish (getThumbValue s (int i + 1)) (range_max (getSliderRange s)) \<and>
   absoluteMin (getThumbRange s th) = range_min (getSliderRange s) \<and>
   absoluteMax (getThumbRange s th) = range_max (getSliderRange s) \<and>
   (getThumbValue s (int (length (thumbs s))) = None \<longrightarrow>
      thumb_min (getThumbRange s th) = range_min (specThumbRange s i) \<and>
      thumb_max (getThumbRange s th) = range_max (specThumbRange s i))"
proof -
  assume idx: "indexOf (thumbs s) th = int i"
  then have i: "i < length (thumbs s)" by (rule indexOf_nth [THEN conjunct1])
  note r = getThumbRange_at_index [OF idx]
  have sp: "getThumbValue s (int (length (thumbs s))) = None \<longrightarrow>
      thumb_min (getThumbRange s th) = range_min (specThumbRange s i) \<and>
      thumb_max (getThumbRange s th) = range_max (specThumbRange s i)"
  proof
    assume last: "getThumbValue s (int (length (thumbs s))) = None"
    have nx: "nullish (getThumbValue s (int i + 1)) (range_max (getSliderRange s)) =
       range_max (specThumbRange s i)"
    proof (cases "i + 1 < length (thumbs s)")
      case True
      then show ?thesis by (simp add: specThumbRange_def)
    next
      case False
      with i last have "getThumbValue s (int i + 1) = None"
        by (rule last_thumb_has_no_follower)
      then show ?thesis using False by (simp add: specThumbRange_def nullish_def)
    qed
    have mn': "thumb_min (getThumbRange s th) = range_min (specThumbRange s i)"
      by (simp add: r(1) specThumbRange_def)
    have mx': "thumb_max (getThumbRange s th) = range_max (specThumbRange s i)"
      using r(2) nx by (rule trans)
    show "thumb_min (getThumbRange s th) = range_min (specThumbRange s i) \<and>
      thumb_max (getThumbRange s th) = range_max (specThumbRange s i)"
      using mn' mx' by (rule conjI)
  qed
  show ?thesis
    apply (intro conjI)
        apply (rule r(1))
       apply (rule r(2))
      apply (rule r(3))
     apply (rule r(4))
    apply (rule sp)
    done
qed

theorem thumb_range_reads_neighbouring_values_witness:
  "indexOf (thumbs exampleSlider) \<lparr>thumb_ref = 1, thumb_id = ''b''\<rparr> = int 1 \<and>
   getThumbValue exampleSlider (int (length (thumbs exampleSlider))) = None \<and>
   thumb_min (getThumbRange exampleSlider \<lparr>thumb_ref = 1, thumb_id = ''b''\<rparr>) =
     range_min (specThumbRange exampleSlider 1) \<and>
   thumb_max (getThumbRange exampleSlider \<lparr>thumb_ref = 1, thumb_id = ''b''\<rparr>) =
     range_max (specThumbRange exampleSlider 1) \<and>
   range_min (specThumbRange exampleSlider 1) = 2 \<and>
   range_max (specThumbRange exampleSlider 1) = 10"
proof -
  have last: "getThumbValue exampleSlider (int (length (thumbs exampleSlider))) = None"
    by (simp add: example_defs getThumbValue_def)
  have sp: "range_min (specThumbRange exampleSlider 1) = 2 \<and>
     range_max (specThumbRange exampleSlider 1) = 10"
    by (simp add: example_defs specThumbRange_def getThumbValue_def getSliderRange_def
        nullish_def orElse_def)
  note r = thumb_range_reads_neighbouring_values [OF example_second_thumb]
  note q = r [THEN conjunct2, THEN conjunct2, THEN conjunct2, THEN conjunct2, THEN mp, OF last]
  show ?thesis
    apply (intro conjI)
         apply (rule example_second_thumb)
        apply (rule last)
       apply (rule q [THEN conjunct1])
      apply (rule q [THEN conjunct2])
     apply (rule sp [THEN conjunct1])
    apply (rule sp [THEN conjunct2])
    done
qed

text \<open>
  C7, as the claim states it, fails: with the values 2 and 12 in order and the bounds 0
  and 10, the maximum of the first thumb's range is 12, above the absolute maximum 10.
\<close>

theorem out_of_bounds_value_escapes_range:
  "sorted [2, 12 :: real] \<and>
   indexOf (thumbs outOfBoundsSlider) \<lparr>thumb_ref = 0, thumb_id = ''a''\<rparr> = 0 \<and>
   getThumbValue outOfBoundsSlider 0 = Some 2 \<and>
   getThumbValue outOfBoundsSlider 1 = Some 12 \<and>
   thumb_max (getThumbRange outOfBoundsSlider \<lparr>thumb_ref = 0, thumb_id = ''a''\<rparr>) = 12 \<and>
   absoluteMax (getThumbRange outOfBoundsSlider \<lparr>thumb_ref = 0, thumb_id = ''a''\<rparr>) = 10 \<and>
   \<not> thumb_max (getThumbRange outOfBoundsSlider \<lparr>thumb_ref = 0, thumb_id = ''a''\<rparr>)
       \<le> absoluteMax (getThumbRange outOfBoundsSlider \<lparr>thumb_ref = 0, thumb_id = ''a''\<rparr>)"
  by (simp add: outOfBoundsSlider_def example_defs getThumbRange_def
      getSliderRange_def getThumbValue_def nullish_def orElse_def)

text \<open>
  C7, amended. When the \<open>N\<close> registered thumbs have the values \<open>vs\<close> in non-decreasing
  order, every value lies within the slider's bounds and no value is set at the position
  after the last thumb, the range of the thumb of index \<open>i\<close> satisfies
  \<open>absoluteMin \<le> min \<le> vs ! i \<le> max \<le> absoluteMax\<close>, the absolute bounds being the
  slider's.
\<close>

theorem thumb_range_containment:
  "indexOf (thumbs s) th = int i \<Longrightarrow> length vs = length (thumbs s) \<Longrightarrow>
   \<forall>j<length vs. getThumbValue s (int j) = Some (vs ! j) \<Longrightarrow>
   getThumbValue s (int (length vs)) = None \<Longrightarrow>
   sorted vs \<Longrightarrow>
   \<forall>v\<in>set vs. range_min (getSliderRange s) \<le> v \<and> v \<le> range_max (getSliderRange s) \<Longrightarrow>
   absoluteMin (getThumbRange s th) = range_min (getSliderRange s) \<and>
   absoluteMax (getThumbRange s th) = range_max (getSliderRange s) \<and>
   absoluteMin (getThumbRange s th) \<le> thumb_min (getThumbRange s th) \<and>
   thumb_min (getThumbRange s th) \<le> vs ! i \<and>
   vs ! i \<le> thumb_max (getThumbRange s th) \<and>
   thumb_max (getThumbRange s th) \<le> absoluteMax (getThumbRange s th)"
proof -
  assume idx: "indexOf (thumbs s) th = int i" and len: "length vs = length (thumbs s)"
    and vals: "\<forall>j<length vs. getThumbValue s (int j) = Some (vs ! j)"
    and last: "getThumbValue s (int (length vs)) = None"
    and srt: "sorted vs"
    and bnd: "\<forall>v\<in>set vs. range_min (getSliderRange s) \<le> v \<and> v \<le> range_max (getSliderRange s)"
  let ?lo = "range_min (getSliderRange s)" and ?hi = "range_max (getSliderRange s)"
  have i: "i < length vs" using idx len by (simp add: indexOf_nth [THEN conjunct1])
  note r = getThumbRange_at_index [OF idx]
  have own: "?lo \<le> vs ! i \<and> vs ! i \<le> ?hi" using bnd i by simp
  have mn: "?lo \<le> thumb_min (getThumbRange s th) \<and> thumb_min (getThumbRange s th) \<le> vs ! i"
  proof (cases "0 < i")
    case False
    then show ?thesis using own by (simp add: r(1))
  next
    case True
    then obtain j where j: "i = Suc j" by (cases i) auto
    have jl: "j < length vs" using i j by simp
    have "getThumbValue s (int j) = Some (vs ! j)" using vals jl by blast
    moreover have "int j = int i - 1" using j by simp
    ultimately have "getThumbValue s (int i - 1) = Some (vs ! j)" by (simp only:)
    then have e: "thumb_min (getThumbRange s th) = vs ! j"
      using True by (simp add: r(1) nullish_def)
    have "vs ! j \<le> vs ! i" using srt i j by (simp add: sorted_nth_mono)
    moreover have "?lo \<le> vs ! j" using bnd jl by simp
    ultimately show ?thesis by (simp add: e)
  qed
  have mx: "vs ! i \<le> thumb_max (getThumbRange s th) \<and> thumb_max (getThumbRange s th) \<le> ?hi"
  proof (cases "i + 1 < length (thumbs s)")
    case False
    have "getThumbValue s (int i + 1) = None"
      using i last False unfolding len by (rule last_thumb_has_no_follower)
    then have "thumb_max (getThumbRange s th) = ?hi" by (simp add: r(2) nullish_def)
    then show ?thesis using own by simp
  next
    case True
    then have jl: "Suc i < length vs" using len by simp
    have "getThumbValue s (int (Suc i)) = Some (vs ! Suc i)" using vals jl by blast
    moreover have "int (Suc i) = int i + 1" by simp
    ultimately have "getThumbValue s (int i + 1) = Some (vs ! Suc i)" by (simp only:)
    then have e: "thumb_max (getThumbRange s th) = vs ! Suc i"
      by (simp add: r(2) nullish_def)
    have "vs ! i \<le> vs ! Suc i" using srt jl by (simp add: sorted_nth_mono)
    moreover have "vs ! Suc i \<le> ?hi" using bnd jl by simp
    ultimately show ?thesis by (simp add: e)
  qed
  show ?thesis using mn mx by (simp add: r(3) r(4))
qed

theorem thumb_range_containment_witness:
  "indexOf (thumbs exampleSlider) \<lparr>thumb_ref = 0, thumb_id = ''a''\<rparr> = int 0 \<and>
   length [2, 8 :: real] = length (thumbs exampleSlider) \<and>
   getThumbValue exampleSlider 0 = Some 2 \<and> getThumbValue exampleSlider 1 = Some 8 \<and>
   getThumbValue exampleSlider 2 = None \<and> sorted [2, 8 :: real] \<and>
   range_min (getSliderRange exampleSlider) = 0 \<and> range_max (getSliderRange exampleSlider) = 10 \<and>
   absoluteMin (getThumbRange exampleSlider \<lparr>thumb_ref = 0, thumb_id = ''a''\<rparr>)
     \<le> thumb_min (getThumbRange exampleSlider \<lparr>thumb_ref = 0, thumb_id = ''a''\<rparr>) \<and>
   thumb_min (getThumbRange exampleSlider \<lparr>thumb_ref = 0, thumb_id = ''a''\<rparr>) \<le> 2 \<and>
   2 \<le> thumb_max (getThumbRange exampleSlider \<lparr>thumb_ref = 0, thumb_id = ''a''\<rparr>) \<and>
   thumb_max (getThumbRange exampleSlider \<lparr>thumb_ref = 0, thumb_id = ''a''\<rparr>)
     \<le> absoluteMax (getThumbRange exampleSlider \<lparr>thumb_ref = 0, thumb_id = ''a''\<rparr>)"
proof -
  have len: "length [2, 8 :: real] = length (thumbs exampleSlider)" by (simp add: example_defs)
  have v: "getThumbValue exampleSlider 0 = Some 2 \<and> getThumbValue exampleSlider 1 = Some 8 \<and>
     getThumbValue exampleSlider 2 = None"
    by (simp add: example_defs getThumbValue_def)
  have vals: "\<forall>j<length [2, 8 :: real]. getThumbValue exampleSlider (int j) = Some ([2, 8] ! j)"
    using v by (simp add: less_Suc_eq numeral_2_eq_2)
  have last: "getThumbValue exampleSlider (int (length [2, 8 :: real])) = None"
    using v by simp
  have srt: "sorted [2, 8 :: real]" by simp
  have b: "range_min (getSliderRange exampleSlider) = 0 \<and> range_max (getSliderRange exampleSlider) = 10"
    by (simp add: example_defs getSliderRange_def orElse_def)
  have bnd: "\<forall>v\<in>set [2, 8 :: real]. range_min (getSliderRange exampleSlider) \<le> v \<and>
      v \<le> range_max (getSliderRange exampleSlider)"
    using b by simp
  note r = thumb_range_containment [OF example_first_thumb len vals last srt bnd]
  have r': "absoluteMin (getThumbRange exampleSlider \<lparr>thumb_ref = 0, thumb_id = ''a''\<rparr>)
     \<le> thumb_min (getThumbRange exampleSlider \<lparr>thumb_ref = 0, thumb_id = ''a''\<rparr>) \<and>
   thumb_min (getThumbRange exampleSlider \<lparr>thumb_ref = 0, thumb_id = ''a''\<rparr>) \<le> 2 \<and>
   2 \<le> thumb_max (getThumbRange exampleSlider \<lparr>thumb_ref = 0, thumb_id = ''a''\<rparr>) \<and>
   thumb_max (getThumbRange exampleSlider \<lparr>thumb_ref = 0, thumb_id = ''a''\<rparr>)
     \<le> absoluteMax (getThumbRange exampleSlider \<lparr>thumb_ref = 0, thumb_id = ''a''\<rparr>)"
    using r [THEN conjunct2, THEN conjunct2] by simp
  show ?thesis
    apply (intro conjI)
               apply (rule example_first_thumb)
              apply (rule len)
             apply (rule v [THEN conjunct1])
            apply (rule v [THEN conjunct2, THEN conjunct1])
           apply (rule v [THEN conjunct2, THEN conjunct2])
          apply (rule srt)
         apply (rule b [THEN conjunct1])
        apply (rule b [THEN conjunct2])
       apply (rule r' [THEN conjunct1])
      apply (rule r' [THEN conjunct2, THEN conjunct1])
     apply (rule r' [THEN conjunct2, THEN conjunct2, THEN conjunct1])
    apply (rule r' [THEN conjunct2, THEN conjunct2, THEN conjunct2])
    done
qed

section \<open>Committing a value to a thumb of several\<close>

lemma three_thumb_mutable:
  "isMutable threeThumbSlider \<and> length (thumbs threeThumbSlider) = 3"
  by (simp add: threeThumbSlider_def unsetSlider_def useSliderThumbRegistration_def example_defs
      isMutable_def isDisabled_def isReadonly_def nullish_def)








section \<open>The position-to-value mapping\<close>

lemma roundHalfAway_negative: "r < 0 \<Longrightarrow> roundHalfAway r = - \<lfloor>- r + 1 / 2\<rfloor>"
  by (simp add: roundHalfAway_def)

lemma roundHalfAway_nonnegative: "\<not> r < 0 \<Longrightarrow> roundHalfAway r = \<lfloor>r + 1 / 2\<rfloor>"
  by (simp add: roundHalfAway_def)

lemma roundHalfAway_mono:
  assumes ab: "a \<le> b"
  shows "roundHalfAway a \<le> roundHalfAway b"
proof (cases "b < 0")
  case True
  then have a: "a < 0" using ab by simp
  have "- a + 1 / 2 \<ge> - b + 1 / 2" using ab by simp
  then have "\<lfloor>- b + 1 / 2\<rfloor> \<le> \<lfloor>- a + 1 / 2\<rfloor>" by (rule floor_mono)
  then show ?thesis
    by (simp only: roundHalfAway_negative [OF a] roundHalfAway_negative [OF True] neg_le_iff_le)
next
  case False
  then have "0 \<le> b + 1 / 2" by simp
  then have b: "0 \<le> \<lfloor>b + 1 / 2\<rfloor>" by (simp only: zero_le_floor)
  show ?thesis
  proof (cases "a < 0")
    case True
    then have "0 \<le> - a + 1 / 2" by simp
    then have "0 \<le> \<lfloor>- a + 1 / 2\<rfloor>" by (simp only: zero_le_floor)
    then have "- \<lfloor>- a + 1 / 2\<rfloor> \<le> \<lfloor>b + 1 / 2\<rfloor>" using b by linarith
    then show ?thesis
      by (simp only: roundHalfAway_negative [OF True] roundHalfAway_nonnegative [OF False])
  next
    case na: False
    have "a + 1 / 2 \<le> b + 1 / 2" using ab by simp
    then have "\<lfloor>a + 1 / 2\<rfloor> \<le> \<lfloor>b + 1 / 2\<rfloor>" by (rule floor_mono)
    then show ?thesis
      by (simp only: roundHalfAway_nonnegative [OF na] roundHalfAway_nonnegative [OF False])
  qed
qed

lemma toNearestMultipleOf_mono:
  assumes "m \<noteq> 0" and "a \<le> b"
  shows "toNearestMultipleOf a m \<le> toNearestMultipleOf b m"
proof (cases "0 < m")
  case True
  then have "a / m \<le> b / m" using assms(2) by (simp add: divide_right_mono)
  then have "roundHalfAway (a / m) \<le> roundHalfAway (b / m)" by (rule roundHalfAway_mono)
  then have "(of_int (roundHalfAway (a / m)) :: real) \<le> of_int (roundHalfAway (b / m))"
    by simp
  moreover have "0 \<le> m" using True by simp
  ultimately show ?thesis unfolding toNearestMultipleOf_def by (rule mult_right_mono)
next
  case False
  then have neg: "m \<le> 0" by simp
  then have "b / m \<le> a / m" using assms(2) by (simp add: divide_right_mono_neg)
  then have "roundHalfAway (b / m) \<le> roundHalfAway (a / m)" by (rule roundHalfAway_mono)
  then have "(of_int (roundHalfAway (b / m)) :: real) \<le> of_int (roundHalfAway (a / m))"
    by simp
  then show ?thesis unfolding toNearestMultipleOf_def using neg by (rule mult_right_mono_neg)
qed

lemma orElse_nonzero: "d \<noteq> 0 \<Longrightarrow> orElse a d \<noteq> 0"
  by (simp add: orElse_def split: option.splits NumberProp.splits)

lemma raw_value_mono:
  fixes w :: real
  assumes "0 < w" and "lo \<le> hi" and "a \<le> b"
  shows "(a - l) / w * (hi - lo) + lo \<le> (b - l) / w * (hi - lo) + lo"
proof -
  have "(a - l) / w \<le> (b - l) / w" using assms(1,3) by (simp add: divide_right_mono)
  moreover have "0 \<le> hi - lo" using assms(2) by simp
  ultimately have "(a - l) / w * (hi - lo) \<le> (b - l) / w * (hi - lo)"
    by (rule mult_right_mono)
  then show ?thesis by simp
qed

lemma raw_value_antimono:
  fixes w :: real
  assumes "0 < w" and "lo \<le> hi" and "a \<le> b"
  shows "(1 - (b - l) / w) * (hi - lo) + lo \<le> (1 - (a - l) / w) * (hi - lo) + lo"
proof -
  have "(a - l) / w \<le> (b - l) / w" using assms(1,3) by (simp add: divide_right_mono)
  then have "1 - (b - l) / w \<le> 1 - (a - l) / w" by simp
  moreover have "0 \<le> hi - lo" using assms(2) by simp
  ultimately have "(1 - (b - l) / w) * (hi - lo) \<le> (1 - (a - l) / w) * (hi - lo)"
    by (rule mult_right_mono)
  then show ?thesis by simp
qed

lemma getValueForPagePosition_horizontal:
  "trackRef s = Some rect \<Longrightarrow> getOrientation s = horizontal \<Longrightarrow>
   getValueForPagePosition s p =
     toNearestMultipleOf
       ((if prop_dir (props s) = Some rtl
         then 1 - (coord_x p - rect_left rect) / rect_width rect
         else (coord_x p - rect_left rect) / rect_width rect) *
        (range_max (getSliderRange s) - range_min (getSliderRange s)) + range_min (getSliderRange s))
       (getSliderStep s)"
  by (simp add: getValueForPagePosition_def getOrientation_def getSliderRange_def
      getSliderStep_def Let_def)

lemma getValueForPagePosition_vertical:
  "trackRef s = Some rect \<Longrightarrow> getOrientation s = vertical \<Longrightarrow>
   getValueForPagePosition s p =
     toNearestMultipleOf
       ((1 - (coord_y p - rect_top rect) / rect_height rect) *
        (range_max (getSliderRange s) - range_min (getSliderRange s)) + range_min (getSliderRange s))
       (getSliderStep s)"
  by (simp add: getValueForPagePosition_def getOrientation_def getSliderRange_def
      getSliderStep_def Let_def)

lemma getSliderStep_nonzero: "getSliderStep s \<noteq> 0"
  by (simp add: getSliderStep_def orElse_nonzero)

text \<open>
  C6, as the claim states it, fails: on a horizontal left-to-right slider whose minimum
  150 exceeds its maximum (the default 100), on a track 100 wide, the mapping decreases
  from 135 at x = 30 to 115 at x = 70.
\<close>

theorem inverted_bounds_reverse_the_mapping:
  "trackRef invertedBoundsSlider =
     Some \<lparr>rect_left = 0, rect_top = 0, rect_width = 100, rect_height = 10\<rparr> \<and>
   getOrientation invertedBoundsSlider = horizontal \<and>
   prop_dir (props invertedBoundsSlider) = Some ltr \<and>
   getInlineDirection invertedBoundsSlider = ltr \<and>
   0 < rect_width \<lparr>rect_left = 0, rect_top = 0, rect_width = 100, rect_height = 10\<rparr> \<and>
   coord_x lowClick \<le> coord_x highClick \<and>
   getValueForPagePosition invertedBoundsSlider lowClick = 135 \<and>
   getValueForPagePosition invertedBoundsSlider highClick = 115 \<and>
   \<not> getValueForPagePosition invertedBoundsSlider lowClick
       \<le> getValueForPagePosition invertedBoundsSlider highClick"
  by (simp add: invertedBoundsSlider_def lowClick_def highClick_def example_defs
      getOrientation_def getInlineDirection_def getValueForPagePosition_def nullish_def
      orElse_def toNearestMultipleOf_def roundHalfAway_def)

text \<open>
  The mapping reads the configured direction only, where \<^verbatim>\<open>getInlineDirection\<close> falls back
  to the locale's: with no direction configured in a right-to-left locale, the inline
  direction of the slider is rtl and the mapping still increases in x.
\<close>

lemma unconfigured_direction_in_rtl_locale:
  "prop_dir (props rtlLocaleSlider) = None \<and> getInlineDirection rtlLocaleSlider = rtl \<and>
   getOrientation rtlLocaleSlider = horizontal \<and>
   getValueForPagePosition rtlLocaleSlider lowClick = 3 \<and>
   getValueForPagePosition rtlLocaleSlider highClick = 7"
  by (simp add: rtlLocaleSlider_def lowClick_def highClick_def example_defs
      getOrientation_def getInlineDirection_def getValueForPagePosition_def nullish_def
      orElse_def toNearestMultipleOf_def roundHalfAway_def)

text \<open>
  C6, amended. On a measured track, when the slider's minimum does not exceed its
  maximum, the value of a position is non-decreasing in x for a horizontal slider of
  positive width whose inline direction (the configured one, or else the locale's) is
  ltr, non-increasing in x for a horizontal slider of positive width whose configured
  direction is rtl, and non-increasing in y for a vertical slider of positive height,
  whatever its direction. Nothing is stated of a horizontal slider with no configured
  direction in a right-to-left locale.
\<close>

theorem position_to_value_monotone:
  "trackRef s = Some rect \<Longrightarrow>
   range_min (getSliderRange s) \<le> range_max (getSliderRange s) \<Longrightarrow>
   (getOrientation s = horizontal \<and> getInlineDirection s = ltr \<and> 0 < rect_width rect \<and>
      coord_x p \<le> coord_x q \<longrightarrow>
      getValueForPagePosition s p \<le> getValueForPagePosition s q) \<and>
   (getOrientation s = horizontal \<and> prop_dir (props s) = Some rtl \<and> 0 < rect_width rect \<and>
      coord_x p \<le> coord_x q \<longrightarrow>
      getValueForPagePosition s q \<le> getValueForPagePosition s p) \<and>
   (getOrientation s = vertical \<and> 0 < rect_height rect \<and> coord_y p \<le> coord_y q \<longrightarrow>
      getValueForPagePosition s q \<le> getValueForPagePosition s p)"
proof -
  assume tr: "trackRef s = Some rect"
    and b: "range_min (getSliderRange s) \<le> range_max (getSliderRange s)"
  have inc: "getOrientation s = horizontal \<and> getInlineDirection s = ltr \<and>
      0 < rect_width rect \<and> coord_x p \<le> coord_x q \<longrightarrow>
      getValueForPagePosition s p \<le> getValueForPagePosition s q"
  proof
    assume a: "getOrientation s = horizontal \<and> getInlineDirection s = ltr \<and>
      0 < rect_width rect \<and> coord_x p \<le> coord_x q"
    have d: "prop_dir (props s) \<noteq> Some rtl"
      using a [THEN conjunct2, THEN conjunct1] by (auto simp: getInlineDirection_def)
    note h = a [THEN conjunct1]
      and w = a [THEN conjunct2, THEN conjunct2, THEN conjunct1]
      and pq = a [THEN conjunct2, THEN conjunct2, THEN conjunct2]
    have e: "\<And>c. getValueForPagePosition s c =
        toNearestMultipleOf
          ((coord_x c - rect_left rect) / rect_width rect *
           (range_max (getSliderRange s) - range_min (getSliderRange s)) +
           range_min (getSliderRange s))
          (getSliderStep s)"
      using d by (simp add: getValueForPagePosition_horizontal [OF tr h])
    show "getValueForPagePosition s p \<le> getValueForPagePosition s q"
      unfolding e
      by (rule toNearestMultipleOf_mono [OF getSliderStep_nonzero raw_value_mono [OF w b pq]])
  qed
  have dec: "getOrientation s = horizontal \<and> prop_dir (props s) = Some rtl \<and>
      0 < rect_width rect \<and> coord_x p \<le> coord_x q \<longrightarrow>
      getValueForPagePosition s q \<le> getValueForPagePosition s p"
  proof
    assume a: "getOrientation s = horizontal \<and> prop_dir (props s) = Some rtl \<and>
      0 < rect_width rect \<and> coord_x p \<le> coord_x q"
    note h = a [THEN conjunct1] and d = a [THEN conjunct2, THEN conjunct1]
      and w = a [THEN conjunct2, THEN conjunct2, THEN conjunct1]
      and pq = a [THEN conjunct2, THEN conjunct2, THEN conjunct2]
    have e: "\<And>c. getValueForPagePosition s c =
        toNearestMultipleOf
          ((1 - (coord_x c - rect_left rect) / rect_width rect) *
           (range_max (getSliderRange s) - range_min (getSliderRange s)) +
           range_min (getSliderRange s))
          (getSliderStep s)"
      using d by (simp add: getValueForPagePosition_horizontal [OF tr h])
    show "getValueForPagePosition s q \<le> getValueForPagePosition s p"
      unfolding e
      by (rule toNearestMultipleOf_mono [OF getSliderStep_nonzero raw_value_antimono [OF w b pq]])
  qed
  have ver: "getOrientation s = vertical \<and> 0 < rect_height rect \<and> coord_y p \<le> coord_y q \<longrightarrow>
      getValueForPagePosition s q \<le> getValueForPagePosition s p"
  proof
    assume a: "getOrientation s = vertical \<and> 0 < rect_height rect \<and> coord_y p \<le> coord_y q"
    note v = a [THEN conjunct1] and w = a [THEN conjunct2, THEN conjunct1]
      and pq = a [THEN conjunct2, THEN conjunct2]
    show "getValueForPagePosition s q \<le> getValueForPagePosition s p"
      unfolding getValueForPagePosition_vertical [OF tr v]
      by (rule toNearestMultipleOf_mono [OF getSliderStep_nonzero raw_value_antimono [OF w b pq]])
  qed
  show ?thesis using inc dec ver by (intro conjI)
qed

lemma example_rect:
  "trackRef exampleSlider = Some \<lparr>rect_left = 0, rect_top = 0, rect_width = 100, rect_height = 10\<rparr>"
  by (simp add: example_defs)

theorem position_to_value_monotone_witness:
  "trackRef exampleSlider = Some \<lparr>rect_left = 0, rect_top = 0, rect_width = 100, rect_height = 10\<rparr> \<and>
   trackRef rtlSlider = Some \<lparr>rect_left = 0, rect_top = 0, rect_width = 100, rect_height = 10\<rparr> \<and>
   trackRef verticalRtlSlider =
     Some \<lparr>rect_left = 0, rect_top = 0, rect_width = 100, rect_height = 10\<rparr> \<and>
   range_min (getSliderRange exampleSlider) \<le> range_max (getSliderRange exampleSlider) \<and>
   range_min (getSliderRange rtlSlider) \<le> range_max (getSliderRange rtlSlider) \<and>
   range_min (getSliderRange verticalRtlSlider) \<le> range_max (getSliderRange verticalRtlSlider) \<and>
   getOrientation exampleSlider = horizontal \<and> getInlineDirection exampleSlider = ltr \<and>
   getOrientation rtlSlider = horizontal \<and> prop_dir (props rtlSlider) = Some rtl \<and>
   getOrientation verticalRtlSlider = vertical \<and> prop_dir (props verticalRtlSlider) = Some rtl \<and>
   coord_x lowClick \<le> coord_x highClick \<and> coord_y lowClick \<le> coord_y highClick \<and>
   getValueForPagePosition exampleSlider lowClick \<le> getValueForPagePosition exampleSlider highClick \<and>
   getValueForPagePosition rtlSlider highClick \<le> getValueForPagePosition rtlSlider lowClick \<and>
   getValueForPagePosition verticalRtlSlider highClick
     \<le> getValueForPagePosition verticalRtlSlider lowClick \<and>
   getValueForPagePosition exampleSlider lowClick = 3 \<and>
   getValueForPagePosition exampleSlider highClick = 7 \<and>
   getValueForPagePosition rtlSlider lowClick = 7 \<and>
   getValueForPagePosition rtlSlider highClick = 3 \<and>
   getValueForPagePosition verticalRtlSlider lowClick = 7 \<and>
   getValueForPagePosition verticalRtlSlider highClick = 3"
proof -
  let ?rect = "\<lparr>rect_left = 0, rect_top = 0, rect_width = 100, rect_height = 10\<rparr>"
  have t1: "trackRef exampleSlider = Some ?rect" by (rule example_rect)
  have t2: "trackRef rtlSlider = Some ?rect" by (simp add: rtlSlider_def example_defs)
  have t3: "trackRef verticalRtlSlider = Some ?rect"
    by (simp add: verticalRtlSlider_def example_defs)
  have b1: "range_min (getSliderRange exampleSlider) \<le> range_max (getSliderRange exampleSlider)"
    by (simp add: example_defs getSliderRange_def orElse_def)
  have b2: "range_min (getSliderRange rtlSlider) \<le> range_max (getSliderRange rtlSlider)"
    by (simp add: rtlSlider_def example_defs getSliderRange_def orElse_def)
  have b3: "range_min (getSliderRange verticalRtlSlider) \<le> range_max (getSliderRange verticalRtlSlider)"
    by (simp add: verticalRtlSlider_def example_defs getSliderRange_def orElse_def)
  have o1: "getOrientation exampleSlider = horizontal \<and> getInlineDirection exampleSlider = ltr"
    by (simp add: example_defs getOrientation_def getInlineDirection_def nullish_def)
  have o2: "getOrientation rtlSlider = horizontal \<and> prop_dir (props rtlSlider) = Some rtl"
    by (simp add: rtlSlider_def example_defs getOrientation_def nullish_def)
  have o3: "getOrientation verticalRtlSlider = vertical \<and> prop_dir (props verticalRtlSlider) = Some rtl"
    by (simp add: verticalRtlSlider_def example_defs getOrientation_def nullish_def)
  have c: "coord_x lowClick \<le> coord_x highClick \<and> coord_y lowClick \<le> coord_y highClick"
    by (simp add: lowClick_def highClick_def)
  have w: "0 < rect_width ?rect \<and> 0 < rect_height ?rect" by simp
  have h1: "getOrientation exampleSlider = horizontal \<and> getInlineDirection exampleSlider = ltr \<and>
      0 < rect_width ?rect \<and> coord_x lowClick \<le> coord_x highClick"
    using o1 w c by (intro conjI) simp_all
  have h2: "getOrientation rtlSlider = horizontal \<and> prop_dir (props rtlSlider) = Some rtl \<and>
      0 < rect_width ?rect \<and> coord_x lowClick \<le> coord_x highClick"
    using o2 w c by (intro conjI) simp_all
  have h3: "getOrientation verticalRtlSlider = vertical \<and> 0 < rect_height ?rect \<and>
      coord_y lowClick \<le> coord_y highClick"
    using o3 w c by (intro conjI) simp_all
  note m1 = position_to_value_monotone [OF t1 b1, of lowClick highClick, THEN conjunct1, THEN mp, OF h1]
  note m2 = position_to_value_monotone [OF t2 b2, of lowClick highClick, THEN conjunct2,
      THEN conjunct1, THEN mp, OF h2]
  note m3 = position_to_value_monotone [OF t3 b3, of lowClick highClick, THEN conjunct2,
      THEN conjunct2, THEN mp, OF h3]
  have v1: "getValueForPagePosition exampleSlider lowClick = 3 \<and>
     getValueForPagePosition exampleSlider highClick = 7"
    by (simp add: lowClick_def highClick_def example_defs getValueForPagePosition_def
        nullish_def orElse_def toNearestMultipleOf_def roundHalfAway_def)
  have v2: "getValueForPagePosition rtlSlider lowClick = 7 \<and>
     getValueForPagePosition rtlSlider highClick = 3"
    by (simp add: rtlSlider_def lowClick_def highClick_def example_defs getValueForPagePosition_def
        nullish_def orElse_def toNearestMultipleOf_def roundHalfAway_def)
  have v3: "getValueForPagePosition verticalRtlSlider lowClick = 7 \<and>
     getValueForPagePosition verticalRtlSlider highClick = 3"
    by (simp add: verticalRtlSlider_def lowClick_def highClick_def example_defs
        getValueForPagePosition_def nullish_def orElse_def toNearestMultipleOf_def
        roundHalfAway_def)
  show ?thesis
    apply (intro conjI)
                          apply (rule t1)
                          apply (rule t2)
                          apply (rule t3)
                          apply (rule b1)
                          apply (rule b2)
                          apply (rule b3)
                          apply (rule o1 [THEN conjunct1])
                          apply (rule o1 [THEN conjunct2])
                          apply (rule o2 [THEN conjunct1])
                          apply (rule o2 [THEN conjunct2])
                          apply (rule o3 [THEN conjunct1])
                          apply (rule o3 [THEN conjunct2])
                          apply (rule c [THEN conjunct1])
                          apply (rule c [THEN conjunct2])
                          apply (rule m1)
                          apply (rule m2)
                          apply (rule m3)
                          apply (rule v1 [THEN conjunct1])
                          apply (rule v1 [THEN conjunct2])
                          apply (rule v2 [THEN conjunct1])
                          apply (rule v2 [THEN conjunct2])
                          apply (rule v3 [THEN conjunct1])
                          apply (rule v3 [THEN conjunct2])
    done
qed

end
